theory Spec2Isabelle
  imports Main "HOL-Library.Char_ord" "HOL-Library.List_Lexorder" "HOL-Library.Sublist"
    "HOL-Library.Multiset"
begin

section \<open>The sandboxed filesystem server (servers/filesystem/filesystem\_mcp.py)\<close>

text \<open>
  A Python \<open>str\<close> is modelled as a \<open>string\<close> whose characters are code points below
  256; the platform is POSIX (\<open>os.sep\<close> is the slash, \<open>os.path\<close> is \<open>posixpath\<close>).
  Every exception of the source is a value of \<open>error\<close>, and a function that can raise
  returns \<open>error + 'a\<close>.
\<close>

subsection \<open>Exceptions\<close>

datatype error =
    ValueError string
  | IndexError string
  | FileNotFoundError string
  | FileExistsError string
  | IsADirectoryError string
  | ValidationError string
  | RecursionError string
  | OtherException string

text \<open>
  \<open>str(e)\<close>: the message of the exception, as the tools put it in their payload. An
  exception of the operating system carries the file name it is about, printed between
  single quotes (the \<open>repr\<close> of a name without quotes, backslashes or control
  characters).
\<close>

fun str_error :: "error \<Rightarrow> string" where
  "str_error (ValueError m) = m"
| "str_error (IndexError m) = m"
| "str_error (FileNotFoundError p) = ''[Errno 2] No such file or directory: '' @ [CHR 0x27] @ p @ [CHR 0x27]"
| "str_error (FileExistsError p) = ''[Errno 17] File exists: '' @ [CHR 0x27] @ p @ [CHR 0x27]"
| "str_error (IsADirectoryError p) = ''[Errno 21] Is a directory: '' @ [CHR 0x27] @ p @ [CHR 0x27]"
| "str_error (ValidationError m) = m"
| "str_error (RecursionError m) = m"
| "str_error (OtherException m) = m"

subsection \<open>The string methods of Python the source calls\<close>

definition whitespace :: "char list" where
  "whitespace = [CHR 0x09, CHR 0x0A, CHR 0x0B, CHR 0x0C, CHR 0x0D, CHR 0x1C, CHR 0x1D,
     CHR 0x1E, CHR 0x1F, CHR 0x20, CHR 0x85, CHR 0xA0]"

definition lstrip_chars :: "char list \<Rightarrow> string \<Rightarrow> string" where
  "lstrip_chars cs s = dropWhile (\<lambda>c. c \<in> set cs) s"

definition rstrip_chars :: "char list \<Rightarrow> string \<Rightarrow> string" where
  "rstrip_chars cs s = rev (dropWhile (\<lambda>c. c \<in> set cs) (rev s))"

definition strip_chars :: "char list \<Rightarrow> string \<Rightarrow> string" where
  "strip_chars cs s = rstrip_chars cs (lstrip_chars cs s)"

text \<open>\<open>s.strip()\<close> and \<open>s.lstrip()\<close> with no argument remove whitespace.\<close>

definition strip :: "string \<Rightarrow> string" where
  "strip s = strip_chars whitespace s"

definition lstrip :: "string \<Rightarrow> string" where
  "lstrip s = lstrip_chars whitespace s"

definition startswith :: "string \<Rightarrow> string \<Rightarrow> bool" where
  "startswith s p = prefix p s"

definition endswith :: "string \<Rightarrow> string \<Rightarrow> bool" where
  "endswith s p = suffix p s"

text \<open>\<open>needle in hay\<close> on strings.\<close>

definition str_in :: "string \<Rightarrow> string \<Rightarrow> bool" where
  "str_in needle hay = sublist needle hay"

text \<open>\<open>sep.join(xs)\<close>.\<close>

fun join :: "string \<Rightarrow> string list \<Rightarrow> string" where
  "join sep [] = []"
| "join sep [x] = x"
| "join sep (x # y # ys) = x @ sep @ join sep (y # ys)"

text \<open>\<open>s.split(c)\<close> for a separator of one character.\<close>

fun split_char :: "char \<Rightarrow> string \<Rightarrow> string list" where
  "split_char c [] = [[]]"
| "split_char c (x # xs) =
     (if x = c then [] # split_char c xs
      else (case split_char c xs of
              [] \<Rightarrow> [[x]]
            | w # ws \<Rightarrow> (x # w) # ws))"

text \<open>
  The part of \<open>s\<close> before the first occurrence of the non-empty separator \<open>sep\<close>, or all
  of \<open>s\<close> when there is none: the element \<open>[0]\<close> of \<open>s.split(sep)\<close>.
\<close>

fun before_first :: "string \<Rightarrow> string \<Rightarrow> string" where
  "before_first sep [] = []"
| "before_first sep (x # xs) =
     (if prefix sep (x # xs) then [] else x # before_first sep xs)"

text \<open>\<open>s.split(sep)[0]\<close>; the method raises ValueError on an empty separator.\<close>

definition split_first :: "string \<Rightarrow> string \<Rightarrow> error + string" where
  "split_first s sep =
     (if sep = [] then Inl (ValueError ''empty separator'') else Inr (before_first sep s))"

text \<open>\<open>s.replace(old, new)\<close> for a non-empty \<open>old\<close>, left to right.\<close>

fun replace :: "string \<Rightarrow> string \<Rightarrow> string \<Rightarrow> string" where
  "replace old new [] = []"
| "replace old new (x # xs) =
     (if old \<noteq> [] \<and> prefix old (x # xs)
      then new @ replace old new (drop (length old) (x # xs))
      else x # replace old new xs)"

text \<open>
  \<open>s.splitlines()\<close>: the line boundaries below code point 256 are LF, CR, CR LF, VT, FF,
  FS, GS, RS and NEL; a trailing boundary does not open a last empty line.
\<close>

definition line_boundaries :: "char list" where
  "line_boundaries = [CHR 0x0A, CHR 0x0D, CHR 0x0B, CHR 0x0C, CHR 0x1C, CHR 0x1D, CHR 0x1E,
     CHR 0x85]"

fun splitlines_acc :: "string \<Rightarrow> string \<Rightarrow> string list" where
  "splitlines_acc cur [] = (if cur = [] then [] else [rev cur])"
| "splitlines_acc cur (x # xs) =
     (if x = CHR 0x0D \<and> xs \<noteq> [] \<and> hd xs = CHR 0x0A then rev cur # splitlines_acc [] (tl xs)
      else if x \<in> set line_boundaries then rev cur # splitlines_acc [] xs
      else splitlines_acc (x # cur) xs)"

definition splitlines :: "string \<Rightarrow> string list" where
  "splitlines s = splitlines_acc [] s"

text \<open>\<open>s.ljust(n)\<close> and \<open>s.rjust(n)\<close> pad with spaces.\<close>

definition ljust :: "nat \<Rightarrow> string \<Rightarrow> string" where
  "ljust n s = s @ replicate (n - length s) CHR '' ''"

definition rjust :: "nat \<Rightarrow> string \<Rightarrow> string" where
  "rjust n s = replicate (n - length s) CHR '' '' @ s"

text \<open>\<open>str(n)\<close> for a natural number.\<close>

fun str_nat :: "nat \<Rightarrow> string" where
  "str_nat n =
     (if n < 10 then [''0123456789'' ! n]
      else str_nat (n div 10) @ [''0123456789'' ! (n mod 10)])"

declare str_nat.simps [simp del]

subsection \<open>posixpath\<close>

definition isabs :: "string \<Rightarrow> bool" where
  "isabs p = startswith p ''/''"

text \<open>\<open>os.path.join(a, b)\<close>.\<close>

definition path_join :: "string \<Rightarrow> string \<Rightarrow> string" where
  "path_join a b =
     (if startswith b ''/'' then b
      else if a = [] \<or> endswith a ''/'' then a @ b
      else a @ ''/'' @ b)"

text \<open>
  The loop of \<open>os.path.normpath\<close> over the components: \<open>new_comps\<close> grows at its end and
  \<open>pop()\<close> removes its last element.
\<close>

fun normpath_comps :: "bool \<Rightarrow> string list \<Rightarrow> string list \<Rightarrow> string list" where
  "normpath_comps initial_slashes new_comps [] = new_comps"
| "normpath_comps initial_slashes new_comps (name # comps) =
     (if name = [] \<or> name = ''.'' then normpath_comps initial_slashes new_comps comps
      else if name \<noteq> ''..'' \<or> (\<not> initial_slashes \<and> new_comps = [])
                \<or> (new_comps \<noteq> [] \<and> last new_comps = ''..'')
           then normpath_comps initial_slashes (new_comps @ [name]) comps
      else if new_comps \<noteq> [] then normpath_comps initial_slashes (butlast new_comps) comps
      else normpath_comps initial_slashes new_comps comps)"

definition normpath :: "string \<Rightarrow> string" where
  "normpath path =
     (if path = [] then ''.''
      else
        let initial_slashes =
              (if startswith path ''/''
               then (if startswith path ''//'' \<and> \<not> startswith path ''///'' then 2 else 1)
               else (0::nat));
            comps = normpath_comps (initial_slashes \<noteq> 0) [] (split_char CHR ''/'' path);
            joined = replicate initial_slashes CHR ''/'' @ join ''/'' comps
        in if joined = [] then ''.'' else joined)"

text \<open>\<open>os.path.dirname\<close>: everything up to the last slash, without trailing slashes
  unless it consists of slashes only.\<close>

definition dirname :: "string \<Rightarrow> string" where
  "dirname p =
     (let head = rev (dropWhile (\<lambda>c. c \<noteq> CHR ''/'') (rev p))
      in if head \<noteq> [] \<and> head \<noteq> replicate (length head) CHR ''/''
         then rstrip_chars ''/'' head else head)"

subsection \<open>The operating system\<close>

text \<open>
  What the process reads from its surroundings: \<open>home\<close> is the value of
  \<open>os.path.expanduser("~")\<close>, \<open>cwd\<close> the value of \<open>os.getcwd()\<close>, \<open>token_hex\<close> the
  value \<open>secrets.token_hex(16)\<close> draws, and \<open>realpath\<close> the result of
  \<open>os.path.realpath\<close>, \<open>None\<close> when the call raises FileNotFoundError. The source
  calls \<open>os.path.realpath\<close> without \<open>strict=True\<close>; in that mode the library
  resolves the part of the path that exists, appends the rest and does not raise for a
  missing component, so the environments of a running server have
  \<open>realpath env p \<noteq> None\<close> for every \<open>p\<close>. The \<open>None\<close> case is kept because the
  source has a handler for it.
\<close>

record os_env =
  home :: string
  cwd :: string
  realpath :: "string \<Rightarrow> string option"
  token_hex :: string

text \<open>\<open>os.path.abspath\<close>.\<close>

definition abspath :: "os_env \<Rightarrow> string \<Rightarrow> string" where
  "abspath env path = normpath (if \<not> isabs path then path_join (cwd env) path else path)"

subsection \<open>Path validation\<close>

definition normalize_path :: "os_env \<Rightarrow> string \<Rightarrow> string" where
  "normalize_path env p0 =
     (let p1 = strip_chars [CHR 0x27, CHR 0x22] (strip p0);
          p2 = (if startswith p1 ''~/'' \<or> p1 = ''~'' then path_join (home env) (drop 1 p1) else p1);
          p3 = normpath p2
      in if \<not> isabs p3 then abspath env (path_join (cwd env) p3) else p3)"

definition is_path_within_allowed_directory :: "os_env \<Rightarrow> string \<Rightarrow> string \<Rightarrow> error + bool" where
  "is_path_within_allowed_directory env absolute_path allowed_dir =
     (let normalized_path = normalize_path env absolute_path;
          normalized_allowed = normalize_path env allowed_dir
      in if \<not> isabs normalized_path \<or> \<not> isabs normalized_allowed
         then Inl (ValueError ''Paths must be absolute'')
         else if CHR 0x00 \<in> set normalized_path then Inr False
         else if normalized_path = normalized_allowed then Inr True
         else Inr (startswith normalized_path (normalized_allowed @ ''/'')))"

definition validate_path :: "os_env \<Rightarrow> string \<Rightarrow> string \<Rightarrow> error + string" where
  "validate_path env requested_path allowed_dir =
     (let absolute_path = normalize_path env requested_path in
      case is_path_within_allowed_directory env absolute_path allowed_dir of
        Inl e \<Rightarrow> Inl e
      | Inr False \<Rightarrow>
          Inl (ValueError (''Access denied - path outside allowed directory: '' @ absolute_path
                 @ '' not in '' @ allowed_dir))
      | Inr True \<Rightarrow>
          (case realpath env absolute_path of
             Some real_path \<Rightarrow>
               (case is_path_within_allowed_directory env real_path allowed_dir of
                  Inl e \<Rightarrow> Inl e
                | Inr False \<Rightarrow>
                    Inl (ValueError (''Access denied - symlink target outside allowed directory: ''
                           @ real_path))
                | Inr True \<Rightarrow> Inr real_path)
           | None \<Rightarrow>
               (let parent_dir = dirname absolute_path in
                case realpath env parent_dir of
                  None \<Rightarrow> Inl (FileNotFoundError parent_dir)
                | Some real_parent \<Rightarrow>
                    (case is_path_within_allowed_directory env real_parent allowed_dir of
                       Inl e \<Rightarrow> Inl e
                     | Inr False \<Rightarrow>
                         Inl (ValueError
                               (''Access denied - parent directory outside allowed directory: ''
                                  @ real_parent))
                     | Inr True \<Rightarrow> Inr absolute_path))))"

text \<open>The spec's SecurityViolation is the ValueError whose message starts with
  \<open>Access denied\<close>.\<close>

fun security_violation :: "error + 'a \<Rightarrow> bool" where
  "security_violation (Inl (ValueError m)) = prefix ''Access denied'' m"
| "security_violation _ = False"

text \<open>The spec's containment: a path lies under a root when it is the root or starts
  with the root followed by the separator.\<close>

definition lies_under :: "string \<Rightarrow> string \<Rightarrow> bool" where
  "lies_under root p = (p = root \<or> prefix (root @ ''/'') p)"

subsection \<open>Files\<close>

text \<open>
  The state of the disk: the regular files with their stored text, and the
  directories. Files are opened in text mode with the default \<open>newline\<close>: reading
  translates CR LF and CR to LF, writing stores the text as it is.
\<close>

record filesystem =
  files :: "string \<rightharpoonup> string"
  dirs :: "string set"

definition universal_newlines :: "string \<Rightarrow> string" where
  "universal_newlines s = replace [CHR 0x0D] [CHR 0x0A] (replace [CHR 0x0D, CHR 0x0A] [CHR 0x0A] s)"

text \<open>\<open>open(path, "r").read()\<close>.\<close>

definition read_text :: "filesystem \<Rightarrow> string \<Rightarrow> error + string" where
  "read_text fs path =
     (if path \<in> dirs fs then Inl (IsADirectoryError path)
      else case files fs path of
             None \<Rightarrow> Inl (FileNotFoundError path)
           | Some data \<Rightarrow> Inr (universal_newlines data))"

text \<open>\<open>open(path, "x")\<close> followed by \<open>write(data)\<close>.\<close>

definition write_exclusive :: "filesystem \<Rightarrow> string \<Rightarrow> string \<Rightarrow> error + filesystem" where
  "write_exclusive fs path data =
     (if path \<in> dirs fs \<or> files fs path \<noteq> None then Inl (FileExistsError path)
      else if dirname path \<notin> dirs fs then Inl (FileNotFoundError path)
      else Inr (fs\<lparr>files := (files fs)(path \<mapsto> data)\<rparr>))"

text \<open>\<open>open(path, "w")\<close> followed by \<open>write(data)\<close>.\<close>

definition write_text :: "filesystem \<Rightarrow> string \<Rightarrow> string \<Rightarrow> error + filesystem" where
  "write_text fs path data =
     (if path \<in> dirs fs then Inl (IsADirectoryError path)
      else if dirname path \<notin> dirs fs then Inl (FileNotFoundError path)
      else Inr (fs\<lparr>files := (files fs)(path \<mapsto> data)\<rparr>))"

text \<open>\<open>os.rename(src, dst)\<close> of a regular file; its exceptions name both paths.\<close>

definition both_names :: "string \<Rightarrow> string \<Rightarrow> string" where
  "both_names src dst = src @ [CHR 0x27] @ '' -> '' @ [CHR 0x27] @ dst"

definition rename :: "filesystem \<Rightarrow> string \<Rightarrow> string \<Rightarrow> error + filesystem" where
  "rename fs src dst =
     (case files fs src of
        None \<Rightarrow> Inl (FileNotFoundError (both_names src dst))
      | Some data \<Rightarrow>
          if dst \<in> dirs fs then Inl (IsADirectoryError (both_names src dst))
          else if dirname dst \<notin> dirs fs then Inl (FileNotFoundError (both_names src dst))
          else Inr (fs\<lparr>files := (files fs)(src := None, dst \<mapsto> data)\<rparr>))"

definition unlink :: "filesystem \<Rightarrow> string \<Rightarrow> error + filesystem" where
  "unlink fs path =
     (case files fs path of
        None \<Rightarrow> Inl (FileNotFoundError path)
      | Some data \<Rightarrow> Inr (fs\<lparr>files := (files fs)(path := None)\<rparr>))"

text \<open>\<open>try: os.unlink(temp_path)\<close> \<open>except: pass\<close>.\<close>

definition unlink_quietly :: "filesystem \<Rightarrow> string \<Rightarrow> filesystem" where
  "unlink_quietly fs path = (case unlink fs path of Inl e \<Rightarrow> fs | Inr fs' \<Rightarrow> fs')"

subsection \<open>Helper functions\<close>

definition normalize_line_endings :: "string \<Rightarrow> string" where
  "normalize_line_endings text = replace [CHR 0x0D, CHR 0x0A] [CHR 0x0A] text"

text \<open>
  \<open>difflib.unified_diff\<close> is a parameter \<open>unified_diff\<close>: the lines it yields for the
  two line lists and the file name (the dates and \<open>n=3\<close> are fixed by the caller).
\<close>

type_synonym differ = "string list \<Rightarrow> string list \<Rightarrow> string \<Rightarrow> string list"

definition create_unified_diff :: "differ \<Rightarrow> string \<Rightarrow> string \<Rightarrow> string \<Rightarrow> string" where
  "create_unified_diff unified_diff original modified filepath =
     (let original_lines = splitlines (normalize_line_endings original);
          modified_lines = splitlines (normalize_line_endings modified)
      in join [CHR 0x0A] (unified_diff original_lines modified_lines filepath))"

subsection \<open>tail\_file and head\_file\<close>

text \<open>ASCII text: every character is below 128 and takes one byte.\<close>

definition ascii_text :: "string \<Rightarrow> bool" where
  "ascii_text s = list_all (\<lambda>c. of_char c < (128::nat)) s"

definition chunk_size :: nat where
  "chunk_size = 1024"

text \<open>
  The \<open>for line in reversed(chunk_lines)\<close> loop: \<open>rev_lines\<close> is the reversed list, the
  state is \<open>(lines, lines_found)\<close>.
\<close>

fun collect_lines :: "int \<Rightarrow> string list \<Rightarrow> string list \<times> int \<Rightarrow> string list \<times> int" where
  "collect_lines num_lines [] st = st"
| "collect_lines num_lines (line # rest) (lines, lines_found) =
     (if lines_found < num_lines
      then collect_lines num_lines rest (line # lines, lines_found + 1)
      else collect_lines num_lines rest (lines, lines_found))"

text \<open>
  The \<open>while\<close> loop of \<open>tail_file\<close> over the stored text \<open>data\<close>. \<open>f.seek(position)\<close>
  followed by \<open>f.read(size)\<close> gives the first \<open>size\<close> characters of the text from
  \<open>position\<close> on, read in text mode; \<open>st_size\<close> is the length of the stored text.
  This is the code on ASCII text, where a character is a byte; on text with a
  character of several bytes \<open>st_size\<close> and the offsets of the code count bytes, and
  the model does not follow it. A directory has a non-zero \<open>st_size\<close>, so that
  \<open>open\<close> is reached and raises.
\<close>

function tail_loop ::
  "string \<Rightarrow> int \<Rightarrow> nat \<Rightarrow> int \<Rightarrow> string \<Rightarrow> string list \<Rightarrow> error + string list" where
  "tail_loop data num_lines position lines_found remaining_text lines =
     (if position > 0 \<and> lines_found < num_lines then
        let size = min chunk_size position;
            position' = position - size;
            chunk = take size (universal_newlines (drop position' data));
            chunk_text = chunk @ remaining_text;
            chunk_lines = splitlines (normalize_line_endings chunk_text)
        in if position' > 0 then
             (case chunk_lines of
                [] \<Rightarrow> Inl (IndexError ''list index out of range'')
              | first # others \<Rightarrow>
                  (case collect_lines num_lines (rev others) (lines, lines_found) of
                     (lines', lines_found') \<Rightarrow>
                       tail_loop data num_lines position' lines_found' first lines'))
           else
             (case collect_lines num_lines (rev chunk_lines) (lines, lines_found) of
                (lines', lines_found') \<Rightarrow>
                  tail_loop data num_lines position' lines_found' remaining_text lines')
      else Inr lines)"
  by pat_completeness auto
termination
  by (relation "measure (\<lambda>(data, num_lines, position, rest). position)")
     (auto simp: chunk_size_def)

declare tail_loop.simps [simp del]

definition tail_file :: "filesystem \<Rightarrow> string \<Rightarrow> int \<Rightarrow> error + string" where
  "tail_file fs file_path num_lines =
     (if file_path \<in> dirs fs then Inl (IsADirectoryError file_path)
      else case files fs file_path of
             None \<Rightarrow> Inl (FileNotFoundError file_path)
           | Some data \<Rightarrow>
               if length data = 0 then Inr []
               else (case tail_loop data num_lines (length data) 0 [] [] of
                       Inl e \<Rightarrow> Inl e
                     | Inr lines \<Rightarrow> Inr (join [CHR 0x0A] lines)))"

text \<open>
  Iterating over a text file yields the pieces that end with LF (and a last piece
  without one when the text does not end with LF).
\<close>

definition file_lines :: "string \<Rightarrow> string list" where
  "file_lines text =
     (let pieces = split_char CHR 0x0A text
      in map (\<lambda>l. l @ [CHR 0x0A]) (butlast pieces)
         @ (if last pieces = [] then [] else [last pieces]))"

definition head_file :: "filesystem \<Rightarrow> string \<Rightarrow> int \<Rightarrow> error + string" where
  "head_file fs file_path num_lines =
     (case read_text fs file_path of
        Inl e \<Rightarrow> Inl e
      | Inr text \<Rightarrow>
          Inr (join [CHR 0x0A]
                 (map (rstrip_chars [CHR 0x0A])
                    (take (nat num_lines) (file_lines text)))))"

subsection \<open>apply\_file\_edits\<close>

record EditOperation =
  oldText :: string
  newText :: string

text \<open>The test of one window: \<open>all(old.strip() == content.strip() for old, content in
  zip(old_lines, potential_match))\<close> with \<open>potential_match = content_lines[i:i + len(old_lines)]\<close>.\<close>

definition window_matches :: "string list \<Rightarrow> string list \<Rightarrow> nat \<Rightarrow> bool" where
  "window_matches old_lines content_lines i =
     list_all (\<lambda>(old, content). strip old = strip content)
       (zip old_lines (take (length old_lines) (drop i content_lines)))"

text \<open>\<open>range(len(content_lines) - len(old_lines) + 1)\<close>, empty when the bound is not
  positive.\<close>

definition window_indices :: "string list \<Rightarrow> string list \<Rightarrow> nat list" where
  "window_indices content_lines old_lines =
     (if length old_lines \<le> length content_lines
      then [0 ..< length content_lines - length old_lines + 1] else [])"

text \<open>The body of the loop over the edits, for one edit.\<close>

definition apply_edit :: "string \<Rightarrow> EditOperation \<Rightarrow> error + string" where
  "apply_edit modified_content edit =
     (let old_lines = splitlines (normalize_line_endings (oldText edit));
          content_lines = splitlines modified_content
      in case find (window_matches old_lines content_lines)
                (window_indices content_lines old_lines) of
           None \<Rightarrow> Inl (ValueError (''Could not find exact match for edit: '' @ oldText edit))
         | Some i \<Rightarrow>
             if \<not> i < length content_lines then Inl (IndexError ''list index out of range'')
             else
               (case old_lines of
                  [] \<Rightarrow> Inl (IndexError ''list index out of range'')
                | old0 # old_rest \<Rightarrow>
                    (case split_first (content_lines ! i) (strip old0) of
                       Inl e \<Rightarrow> Inl e
                     | Inr original_indent \<Rightarrow>
                         (case splitlines (normalize_line_endings (newText edit)) of
                            [] \<Rightarrow> Inl (IndexError ''list index out of range'')
                          | new0 # new_rest \<Rightarrow>
                              Inr (join [CHR 0x0A]
                                     (take i content_lines
                                      @ (original_indent @ lstrip new0) # new_rest
                                      @ drop (i + length old_lines) content_lines))))))"

fun apply_edits :: "string \<Rightarrow> EditOperation list \<Rightarrow> error + string" where
  "apply_edits modified_content [] = Inr modified_content"
| "apply_edits modified_content (edit # edits) =
     (case apply_edit modified_content edit of
        Inl e \<Rightarrow> Inl e
      | Inr modified_content' \<Rightarrow> apply_edits modified_content' edits)"

text \<open>\<open>"```" * num_backticks\<close>.\<close>

definition fence :: "nat \<Rightarrow> string" where
  "fence num_backticks = concat (replicate num_backticks ''```'')"

text \<open>The loop \<open>while "```" * num_backticks in diff: num_backticks += 1\<close>.\<close>

function fence_count :: "string \<Rightarrow> nat \<Rightarrow> nat" where
  "fence_count diff num_backticks =
     (if str_in (fence num_backticks) diff then fence_count diff (num_backticks + 1)
      else num_backticks)"
  by pat_completeness auto
termination
proof (relation "measure (\<lambda>(diff, num_backticks). Suc (length diff) - 3 * num_backticks)")
  show "wf (measure (\<lambda>(diff, num_backticks). Suc (length diff) - 3 * num_backticks))"
    by simp
next
  fix diff :: string and num_backticks :: nat
  assume "str_in (fence num_backticks) diff"
  then have "length (fence num_backticks) \<le> length diff"
    by (auto simp: str_in_def sublist_def)
  moreover have "length (fence num_backticks) = 3 * num_backticks"
    by (induction num_backticks) (simp_all add: fence_def)
  ultimately show "((diff, num_backticks + 1), (diff, num_backticks))
      \<in> measure (\<lambda>(diff, num_backticks). Suc (length diff) - 3 * num_backticks)"
    by simp
qed

declare fence_count.simps [simp del]

definition format_diff :: "string \<Rightarrow> string" where
  "format_diff diff =
     (let num_backticks = fence_count diff 3
      in fence num_backticks @ ''diff'' @ [CHR 0x0A] @ diff @ [CHR 0x0A]
         @ fence num_backticks @ [CHR 0x0A])"

definition temp_path_of :: "os_env \<Rightarrow> string \<Rightarrow> string" where
  "temp_path_of env file_path = file_path @ ''.'' @ token_hex env @ ''.tmp''"

definition apply_file_edits ::
  "os_env \<Rightarrow> differ \<Rightarrow> filesystem \<Rightarrow> string \<Rightarrow> EditOperation list \<Rightarrow> bool
     \<Rightarrow> (error + string) \<times> filesystem" where
  "apply_file_edits env unified_diff fs file_path edits dry_run =
     (case read_text fs file_path of
        Inl e \<Rightarrow> (Inl e, fs)
      | Inr text \<Rightarrow>
          (let content = normalize_line_endings text in
           case apply_edits content edits of
             Inl e \<Rightarrow> (Inl e, fs)
           | Inr modified_content \<Rightarrow>
               (let diff = create_unified_diff unified_diff content modified_content file_path;
                    formatted_diff = format_diff diff
                in if \<not> dry_run then
                     (let temp_path = temp_path_of env file_path in
                      case write_text fs temp_path modified_content of
                        Inl e \<Rightarrow> (Inl e, unlink_quietly fs temp_path)
                      | Inr fs1 \<Rightarrow>
                          (case rename fs1 temp_path file_path of
                             Inl e \<Rightarrow> (Inl e, unlink_quietly fs1 temp_path)
                           | Inr fs2 \<Rightarrow> (Inr formatted_diff, fs2)))
                   else (Inr formatted_diff, fs))))"

subsection \<open>format\_size\<close>

fun bit_length :: "nat \<Rightarrow> nat" where
  "bit_length n = (if n = 0 then 0 else Suc (bit_length (n div 2)))"

declare bit_length.simps [simp del]

definition units :: "string list" where
  "units = [''B'', ''KB'', ''MB'', ''GB'', ''TB'']"

text \<open>
  The text of \<open>bytes / (1024 ** i)\<close> with two decimals is floating-point formatting and
  is the parameter \<open>two_decimals\<close>. \<open>int(bytes.bit_length() / 10)\<close> is the integer
  quotient.
\<close>

definition format_size :: "(nat \<Rightarrow> nat \<Rightarrow> string) \<Rightarrow> nat \<Rightarrow> error + string" where
  "format_size two_decimals bytes =
     (if bytes = 0 then Inr ''0 B''
      else let i = bit_length bytes div 10
           in if i = 0 then Inr (str_nat bytes @ '' '' @ units ! i)
              else if i < length units then Inr (two_decimals bytes i @ '' '' @ units ! i)
              else Inl (IndexError ''list index out of range''))"

subsection \<open>The tools\<close>

text \<open>
  A tool returns \<open>json.dumps\<close> of a dictionary with one key; the model returns the
  dictionary, as the list of its items. The argument of a tool is the result of the
  pydantic constructor (\<open>ReadFileArgs(**args)\<close> and the like), which raises on
  arguments of the wrong shape. \<open>allowed_dir\<close> is the module's \<open>ALLOWED_DIR\<close>.
\<close>

type_synonym payload = "(string \<times> string) list"

record ReadFileArgs =
  read_path :: string
  read_tail :: "int option"
  read_head :: "int option"

record WriteFileArgs =
  write_path :: string
  write_content :: string

record EditFileArgs =
  edit_path :: string
  edit_edits :: "EditOperation list"
  edit_dryRun :: bool

text \<open>The truth value of an \<open>Optional[int]\<close>.\<close>

fun truthy :: "int option \<Rightarrow> bool" where
  "truthy None = False"
| "truthy (Some n) = (n \<noteq> 0)"

definition read_file :: "os_env \<Rightarrow> filesystem \<Rightarrow> string \<Rightarrow> error + ReadFileArgs \<Rightarrow> payload" where
  "read_file env fs allowed_dir args =
     (case args of
        Inl e \<Rightarrow> [(''error'', str_error e)]
      | Inr parsed \<Rightarrow>
          if truthy (read_head parsed) \<and> truthy (read_tail parsed)
          then [(''error'', ''Cannot specify both head and tail parameters'')]
          else
            (case validate_path env (read_path parsed) allowed_dir of
               Inl e \<Rightarrow> [(''error'', str_error e)]
             | Inr valid_path \<Rightarrow>
                 (case (if truthy (read_tail parsed)
                        then tail_file fs valid_path (the (read_tail parsed))
                        else if truthy (read_head parsed)
                        then head_file fs valid_path (the (read_head parsed))
                        else read_text fs valid_path) of
                    Inl e \<Rightarrow> [(''error'', str_error e)]
                  | Inr content \<Rightarrow> [(''content'', content)])))"

text \<open>
  One attempt of \<open>write_file\<close>: open the temporary file, write, rename. The exclusive
  attempt opens with \<open>"x"\<close>, the second attempt with \<open>"w"\<close>.
\<close>

definition write_attempt ::
  "(filesystem \<Rightarrow> string \<Rightarrow> string \<Rightarrow> error + filesystem) \<Rightarrow> filesystem \<Rightarrow> string \<Rightarrow> string
     \<Rightarrow> string \<Rightarrow> (error + unit) \<times> filesystem" where
  "write_attempt open_and_write fs temp_path valid_path content =
     (case open_and_write fs temp_path content of
        Inl e \<Rightarrow> (Inl e, fs)
      | Inr fs1 \<Rightarrow>
          (case rename fs1 temp_path valid_path of
             Inl e \<Rightarrow> (Inl e, fs1)
           | Inr fs2 \<Rightarrow> (Inr (), fs2)))"

text \<open>
  The inner \<open>try\<close> of \<open>write_file\<close>: on FileExistsError the second attempt, whose
  exceptions leave the handler as they are; on any other exception the removal of the
  temporary file.
\<close>

definition write_file ::
  "os_env \<Rightarrow> filesystem \<Rightarrow> string \<Rightarrow> error + WriteFileArgs \<Rightarrow> payload \<times> filesystem" where
  "write_file env fs allowed_dir args =
     (case args of
        Inl e \<Rightarrow> ([(''error'', str_error e)], fs)
      | Inr parsed \<Rightarrow>
          (case validate_path env (write_path parsed) allowed_dir of
             Inl e \<Rightarrow> ([(''error'', str_error e)], fs)
           | Inr valid_path \<Rightarrow>
               (let temp_path = temp_path_of env valid_path;
                    outcome =
                      (case write_attempt write_exclusive fs temp_path valid_path
                              (write_content parsed) of
                         (Inr u, fs') \<Rightarrow> (Inr u, fs')
                       | (Inl (FileExistsError p), fs') \<Rightarrow>
                           write_attempt write_text fs' temp_path valid_path (write_content parsed)
                       | (Inl e, fs') \<Rightarrow> (Inl e, unlink_quietly fs' temp_path))
                in case outcome of
                     (Inr u, fs') \<Rightarrow>
                       ([(''message'', ''Successfully wrote to '' @ write_path parsed)], fs')
                   | (Inl e, fs') \<Rightarrow> ([(''error'', str_error e)], fs'))))"

definition edit_file ::
  "os_env \<Rightarrow> differ \<Rightarrow> filesystem \<Rightarrow> string \<Rightarrow> error + EditFileArgs \<Rightarrow> payload \<times> filesystem" where
  "edit_file env unified_diff fs allowed_dir args =
     (case args of
        Inl e \<Rightarrow> ([(''error'', str_error e)], fs)
      | Inr parsed \<Rightarrow>
          (case validate_path env (edit_path parsed) allowed_dir of
             Inl e \<Rightarrow> ([(''error'', str_error e)], fs)
           | Inr valid_path \<Rightarrow>
               (case apply_file_edits env unified_diff fs valid_path (edit_edits parsed)
                       (edit_dryRun parsed) of
                  (Inl e, fs') \<Rightarrow> ([(''error'', str_error e)], fs')
                | (Inr result, fs') \<Rightarrow> ([(''content'', result)], fs'))))"

subsection \<open>list\_directory\_with\_sizes\<close>

text \<open>
  What the listing reads: \<open>listdir\<close> is \<open>os.listdir\<close>, \<open>stat_size\<close> the \<open>st_size\<close> of
  \<open>os.stat\<close> (\<open>None\<close> when the call raises), \<open>isdir\<close> is \<open>os.path.isdir\<close>. The \<open>mtime\<close>
  of an entry is stored and never read, and is left out.
\<close>

record dir_reader =
  listdir :: "string \<Rightarrow> error + string list"
  stat_size :: "string \<Rightarrow> nat option"
  isdir :: "string \<Rightarrow> bool"

record dir_entry =
  entry_name :: string
  isDirectory :: bool
  entry_size :: nat

record ListDirectoryWithSizesArgs =
  list_path :: string
  sortBy :: string

definition stat_entry :: "dir_reader \<Rightarrow> string \<Rightarrow> string \<Rightarrow> dir_entry" where
  "stat_entry rd valid_path entry =
     (let entry_path = path_join valid_path entry
      in case stat_size rd entry_path of
           Some n \<Rightarrow> \<lparr>entry_name = entry, isDirectory = isdir rd entry_path, entry_size = n\<rparr>
         | None \<Rightarrow> \<lparr>entry_name = entry, isDirectory = isdir rd entry_path, entry_size = 0\<rparr>)"

text \<open>\<open>entries.sort(key=..., reverse=(sortBy == "size"))\<close>: the sort is stable, also
  when reversed.\<close>

definition sort_entries :: "string \<Rightarrow> dir_entry list \<Rightarrow> dir_entry list" where
  "sort_entries sort_by entries =
     (if sort_by = ''size'' then rev (sort_key entry_size (rev entries))
      else sort_key entry_name entries)"

definition format_entry :: "(nat \<Rightarrow> nat \<Rightarrow> string) \<Rightarrow> dir_entry \<Rightarrow> error + string" where
  "format_entry two_decimals e =
     (if isDirectory e then Inr (''[DIR] '' @ ljust 30 (entry_name e) @ '' '')
      else case format_size two_decimals (entry_size e) of
             Inl err \<Rightarrow> Inl err
           | Inr text \<Rightarrow> Inr (''[FILE] '' @ ljust 30 (entry_name e) @ '' '' @ rjust 10 text))"

text \<open>A list comprehension whose element expression can raise.\<close>

fun map_raising :: "('a \<Rightarrow> error + 'b) \<Rightarrow> 'a list \<Rightarrow> error + 'b list" where
  "map_raising f [] = Inr []"
| "map_raising f (x # xs) =
     (case f x of
        Inl e \<Rightarrow> Inl e
      | Inr y \<Rightarrow> (case map_raising f xs of Inl e \<Rightarrow> Inl e | Inr ys \<Rightarrow> Inr (y # ys)))"

definition total_files :: "dir_entry list \<Rightarrow> nat" where
  "total_files entries = length (filter (\<lambda>e. \<not> isDirectory e) entries)"

definition total_dirs :: "dir_entry list \<Rightarrow> nat" where
  "total_dirs entries = length (filter isDirectory entries)"

definition total_size :: "dir_entry list \<Rightarrow> nat" where
  "total_size entries = sum_list (map entry_size (filter (\<lambda>e. \<not> isDirectory e) entries))"

text \<open>The entries after the sort: what the listing and the summary are computed from.\<close>

definition listed_entries :: "dir_reader \<Rightarrow> string \<Rightarrow> string \<Rightarrow> string list \<Rightarrow> dir_entry list" where
  "listed_entries rd valid_path sort_by names =
     sort_entries sort_by (map (stat_entry rd valid_path) names)"

definition summary_lines :: "dir_entry list \<Rightarrow> string \<Rightarrow> string list" where
  "summary_lines entries size_text =
     [[],
      ''Total: '' @ str_nat (total_files entries) @ '' files, ''
        @ str_nat (total_dirs entries) @ '' directories'',
      ''Combined size: '' @ size_text]"

definition list_directory_with_sizes ::
  "os_env \<Rightarrow> dir_reader \<Rightarrow> (nat \<Rightarrow> nat \<Rightarrow> string) \<Rightarrow> string
     \<Rightarrow> error + ListDirectoryWithSizesArgs \<Rightarrow> payload" where
  "list_directory_with_sizes env rd two_decimals allowed_dir args =
     (case args of
        Inl e \<Rightarrow> [(''error'', str_error e)]
      | Inr parsed \<Rightarrow>
          (case validate_path env (list_path parsed) allowed_dir of
             Inl e \<Rightarrow> [(''error'', str_error e)]
           | Inr valid_path \<Rightarrow>
               (case listdir rd valid_path of
                  Inl e \<Rightarrow> [(''error'', str_error e)]
                | Inr names \<Rightarrow>
                    (let entries = listed_entries rd valid_path (sortBy parsed) names in
                     case map_raising (format_entry two_decimals) entries of
                       Inl e \<Rightarrow> [(''error'', str_error e)]
                     | Inr formatted \<Rightarrow>
                         (case format_size two_decimals (total_size entries) of
                            Inl e \<Rightarrow> [(''error'', str_error e)]
                          | Inr size_text \<Rightarrow>
                              [(''content'',
                                join [CHR 0x0A] (formatted @ summary_lines entries size_text))])))))"

subsection \<open>The other tools\<close>














subsection \<open>What the spec says tail returns\<close>

text \<open>The last \<open>n\<close> lines of a full read of a text, joined as \<open>tail_file\<close> joins them.\<close>

definition last_lines_of_full_read :: "string \<Rightarrow> nat \<Rightarrow> string" where
  "last_lines_of_full_read text n =
     (let all_lines = splitlines (normalize_line_endings (universal_newlines text))
      in join [CHR 0x0A] (drop (length all_lines - n) all_lines))"

subsection \<open>Shapes of a payload\<close>

text \<open>The key of a dictionary with exactly one item.\<close>

fun payload_key :: "payload \<Rightarrow> string option" where
  "payload_key [(k, v)] = Some k"
| "payload_key _ = None"

subsection \<open>The window an edit matches\<close>

text \<open>The first window of the lines of \<open>content\<close> that matches \<open>oldText\<close> of the edit:
  the search at the head of the body of the loop over the edits.\<close>

definition matching_window :: "string \<Rightarrow> EditOperation \<Rightarrow> nat option" where
  "matching_window content edit =
     (let old_lines = splitlines (normalize_line_endings (oldText edit));
          content_lines = splitlines content
      in find (window_matches old_lines content_lines) (window_indices content_lines old_lines))"

section \<open>Concrete environments and disks\<close>

text \<open>A machine without symbolic links: every path resolves to itself.\<close>

definition plain_env :: os_env where
  "plain_env = \<lparr> home = ''/home/user'', cwd = ''/work'', realpath = Some,
     token_hex = ''000102030405060708090a0b0c0d0e0f'' \<rparr>"

text \<open>\<open>/tmp/link\<close> is a symbolic link to \<open>/sandbox/a\<close>, a file under the root.\<close>

definition link_into_root_env :: os_env where
  "link_into_root_env = \<lparr> home = ''/home/user'', cwd = ''/work'',
     realpath = (\<lambda>p. if p = ''/tmp/link'' then Some ''/sandbox/a'' else Some p),
     token_hex = ''000102030405060708090a0b0c0d0e0f'' \<rparr>"

text \<open>\<open>/sandbox/link\<close> is a symbolic link to \<open>/etc\<close>.\<close>

definition link_out_of_root_env :: os_env where
  "link_out_of_root_env = \<lparr> home = ''/home/user'', cwd = ''/work'',
     realpath = (\<lambda>p. if p = ''/sandbox/link'' then Some ''/etc'' else Some p),
     token_hex = ''000102030405060708090a0b0c0d0e0f'' \<rparr>"

text \<open>
  \<open>/sandbox/d\<close> is a symbolic link to the directory \<open>/sandbox/real\<close>, and neither
  directory has an entry \<open>new.txt\<close>: \<open>os.path.realpath\<close> resolves the link and appends
  the missing component.
\<close>

definition linked_directory_env :: os_env where
  "linked_directory_env = \<lparr> home = ''/home/user'', cwd = ''/work'',
     realpath = (\<lambda>p. if p = ''/sandbox/d'' then Some ''/sandbox/real''
                     else if p = ''/sandbox/d/new.txt'' then Some ''/sandbox/real/new.txt''
                     else Some p),
     token_hex = ''000102030405060708090a0b0c0d0e0f'' \<rparr>"

text \<open>The disk of the spec's scenario: \<open>/sandbox/a.txt\<close> holds two lines.\<close>

definition hello_disk :: filesystem where
  "hello_disk = \<lparr> files = [''/sandbox/a.txt'' \<mapsto> ''hello'' @ [CHR 0x0A] @ ''world'' @ [CHR 0x0A]],
     dirs = {''/'', ''/sandbox''} \<rparr>"

text \<open>
  A file of 1026 characters: the line \<open>a\<close>, an empty line, and a line of 1023 letters
  without a final newline. The last block of 1024 characters that \<open>tail_file\<close> reads
  starts with the newline that ends the empty line.
\<close>

definition long_line :: string where
  "long_line = replicate 1023 CHR ''b''"

definition blank_line_disk :: filesystem where
  "blank_line_disk = \<lparr> files = [''/sandbox/log.txt'' \<mapsto> ''a'' @ [CHR 0x0A, CHR 0x0A] @ long_line],
     dirs = {''/'', ''/sandbox''} \<rparr>"

text \<open>A disk on which the temporary name that a write to \<open>/sandbox\<close> draws is taken.\<close>

definition collision_disk :: filesystem where
  "collision_disk = \<lparr> files = [''/sandbox.000102030405060708090a0b0c0d0e0f.tmp'' \<mapsto> ''old''],
     dirs = {''/'', ''/sandbox''} \<rparr>"

text \<open>A stand-in for \<open>difflib.unified_diff\<close> where a closed term needs one: it yields
  the two header lines only.\<close>

definition headers_only :: differ where
  "headers_only original_lines modified_lines filepath = [''--- '' @ filepath, ''+++ '' @ filepath]"

text \<open>
  A directory \<open>/sandbox\<close> that \<open>os.listdir\<close> reports in the order \<open>a\<close>, \<open>d\<close>, \<open>c\<close>,
  \<open>b\<close>: the files \<open>a\<close> (1024 bytes), \<open>c\<close> (which \<open>os.stat\<close> fails on) and \<open>b\<close>
  (4096 bytes), and the directory \<open>d\<close> (2048 bytes). Neither sort leaves this order.
\<close>

definition sandbox_reader :: dir_reader where
  "sandbox_reader = \<lparr>
     listdir = (\<lambda>p. if p = ''/sandbox'' then Inr [''a'', ''d'', ''c'', ''b'']
                    else Inl (FileNotFoundError p)),
     stat_size = (\<lambda>p. if p = ''/sandbox/a'' then Some 1024
                      else if p = ''/sandbox/b'' then Some 4096
                      else if p = ''/sandbox/d'' then Some 2048
                      else None),
     isdir = (\<lambda>p. p = ''/sandbox/d'') \<rparr>"

text \<open>The text of \<open>bytes / (1024 ** i)\<close> with two decimals, where \<open>bytes\<close> is a multiple
  of \<open>1024 ** i\<close>.\<close>

definition whole_units :: "nat \<Rightarrow> nat \<Rightarrow> string" where
  "whole_units bytes i = str_nat (bytes div 1024 ^ i) @ ''.00''"

section \<open>Path validation: theorems\<close>

lemma isabs_normpath: "isabs p \<Longrightarrow> isabs (normpath p)"
  by (auto simp: isabs_def normpath_def startswith_def Let_def prefix_def numeral_2_eq_2)

lemma isabs_path_join: "isabs a \<Longrightarrow> isabs (path_join a b)"
  by (auto simp: isabs_def path_join_def startswith_def prefix_def)

lemma isabs_normalize_path: "isabs (cwd env) \<Longrightarrow> isabs (normalize_path env p)"
  by (simp add: normalize_path_def Let_def abspath_def isabs_normpath isabs_path_join)

text \<open>With an absolute working directory the containment test never raises, and it is
  the spec's containment of the normalized path under the normalized root.\<close>

lemma within_allowed_directory_eq:
  assumes "isabs (cwd env)"
  shows "is_path_within_allowed_directory env x root =
     Inr (CHR 0x00 \<notin> set (normalize_path env x)
          \<and> lies_under (normalize_path env root) (normalize_path env x))"
  using assms
  by (simp add: is_path_within_allowed_directory_def Let_def isabs_normalize_path
      lies_under_def startswith_def)

text \<open>
  Claim C1, as stated, fails: validation does not succeed exactly when the resolved form
  lies under the root. \<open>/tmp/link\<close> resolves to \<open>/sandbox/a\<close>, which lies under the root
  \<open>/sandbox\<close>, and validation rejects it, because the first test of \<open>validate_path\<close> is
  on the path before resolution.
\<close>

theorem validate_path_rejects_link_into_root:
  "realpath link_into_root_env (normalize_path link_into_root_env ''/tmp/link'') = Some ''/sandbox/a''
   \<and> lies_under (normalize_path link_into_root_env ''/sandbox'') ''/sandbox/a''
   \<and> validate_path link_into_root_env ''/tmp/link'' ''/sandbox'' =
       Inl (ValueError
             ''Access denied - path outside allowed directory: /tmp/link not in /sandbox'')"
  by code_simp

text \<open>
  Claim C1, amended: let the working directory be absolute, let the normalized request
  and its resolved form \<open>real\<close> be unchanged by a further normalization (no whitespace or
  quote is left to strip). Then validation either returns \<open>real\<close> or fails with a
  SecurityViolation, and it returns \<open>real\<close> exactly when both the normalized request and
  \<open>real\<close> are free of NUL and equal to the normalized root or prefixed by it and the
  separator. So a link inside the root that points outside is rejected, and so is a
  sibling whose name has the root as a string prefix.
\<close>

theorem validate_path_contained:
  assumes cwd: "isabs (cwd env)"
    and stable: "normalize_path env (normalize_path env p) = normalize_path env p"
    and real: "realpath env (normalize_path env p) = Some real"
    and real_stable: "normalize_path env real = real"
  shows "(validate_path env p root = Inr real \<or> security_violation (validate_path env p root))
    \<and> (validate_path env p root = Inr real \<longleftrightarrow>
          CHR 0x00 \<notin> set (normalize_path env p) \<and> CHR 0x00 \<notin> set real
          \<and> lies_under (normalize_path env root) (normalize_path env p)
          \<and> lies_under (normalize_path env root) real)"
proof (cases "CHR 0x00 \<notin> set (normalize_path env p)
               \<and> lies_under (normalize_path env root) (normalize_path env p)")
  case False
  then show ?thesis
    by (auto simp: validate_path_def Let_def within_allowed_directory_eq [OF cwd] stable)
next
  case outer: True
  show ?thesis
  proof (cases "CHR 0x00 \<notin> set real \<and> lies_under (normalize_path env root) real")
    case True
    with outer show ?thesis
      by (simp add: validate_path_def Let_def within_allowed_directory_eq [OF cwd]
          stable real real_stable)
  next
    case False
    with outer show ?thesis
      by (auto simp: validate_path_def Let_def within_allowed_directory_eq [OF cwd]
          stable real real_stable)
  qed
qed

text \<open>The theorem at three requests: a file under the root, a link inside the root that
  points to \<open>/etc\<close>, and a sibling directory \<open>/sandbox-other\<close>.\<close>

theorem validate_path_contained_witness:
  "validate_path link_out_of_root_env ''/sandbox/x'' '' /sandbox/./ '' = Inr ''/sandbox/x''
   \<and> security_violation (validate_path link_out_of_root_env ''/sandbox/link'' ''/sandbox'')
   \<and> security_violation (validate_path link_out_of_root_env ''/sandbox-other/x'' ''/sandbox'')"
proof -
  let ?env = link_out_of_root_env
  have cwd: "isabs (cwd ?env)" by code_simp
  have root: "normalize_path ?env '' /sandbox/./ '' = ''/sandbox''"
    and root': "normalize_path ?env ''/sandbox'' = ''/sandbox''" by code_simp+
  have x: "normalize_path ?env ''/sandbox/x'' = ''/sandbox/x''"
    and x_real: "realpath ?env ''/sandbox/x'' = Some ''/sandbox/x''" by code_simp+
  have l: "normalize_path ?env ''/sandbox/link'' = ''/sandbox/link''"
    and l_real: "realpath ?env ''/sandbox/link'' = Some ''/etc''"
    and etc: "normalize_path ?env ''/etc'' = ''/etc''" by code_simp+
  have s: "normalize_path ?env ''/sandbox-other/x'' = ''/sandbox-other/x''"
    and s_real: "realpath ?env ''/sandbox-other/x'' = Some ''/sandbox-other/x''" by code_simp+
  have under: "lies_under ''/sandbox'' ''/sandbox/x''" "\<not> lies_under ''/sandbox'' ''/etc''"
    "\<not> lies_under ''/sandbox'' ''/sandbox-other/x''" by code_simp+
  have "validate_path ?env ''/sandbox/x'' '' /sandbox/./ '' = Inr ''/sandbox/x''"
    using validate_path_contained [of ?env "''/sandbox/x''" "''/sandbox/x''" "'' /sandbox/./ ''"]
      cwd under by (auto simp: x x_real root)
  moreover have "security_violation (validate_path ?env ''/sandbox/link'' ''/sandbox'')"
    using validate_path_contained [of ?env "''/sandbox/link''" "''/etc''" "''/sandbox''"]
      cwd under by (auto simp: l l_real etc root')
  moreover have "security_violation (validate_path ?env ''/sandbox-other/x'' ''/sandbox'')"
    using validate_path_contained [of ?env "''/sandbox-other/x''" "''/sandbox-other/x''" "''/sandbox''"]
      cwd under by (auto simp: s s_real root')
  ultimately show ?thesis by simp
qed

text \<open>
  The two hypotheses on normalization are needed: the containment test normalizes the
  path it is given once more, so a path that ends with a space after the quotes are
  stripped passes as the root. The request \<open>'/sandbox '\<close> (in quotes, with a space
  before the closing quote) is answered with the sibling directory whose name is the
  root's followed by a space.
\<close>

lemma validate_path_accepts_stripped_sibling:
  "validate_path plain_env ([CHR 0x27] @ ''/sandbox '' @ [CHR 0x27]) ''/sandbox'' = Inr ''/sandbox ''
   \<and> \<not> lies_under ''/sandbox'' ''/sandbox ''"
  by code_simp

text \<open>
  The handler for FileNotFoundError, when it runs: the parent directory is resolved and
  tested, and the unresolved absolute path is returned.
\<close>

lemma validate_path_fallback:
  assumes "isabs (cwd env)"
    and "normalize_path env (normalize_path env p) = normalize_path env p"
    and "CHR 0x00 \<notin> set (normalize_path env p)"
    and "lies_under (normalize_path env root) (normalize_path env p)"
    and "realpath env (normalize_path env p) = None"
    and "realpath env (dirname (normalize_path env p)) = Some real_parent"
  shows "validate_path env p root =
     (if CHR 0x00 \<notin> set (normalize_path env real_parent)
         \<and> lies_under (normalize_path env root) (normalize_path env real_parent)
      then Inr (normalize_path env p)
      else Inl (ValueError (''Access denied - parent directory outside allowed directory: ''
                  @ real_parent)))"
  using assms
  by (simp add: validate_path_def Let_def within_allowed_directory_eq)

text \<open>
  Claim C2 says that for a target that does not exist yet, validation returns the
  original, unresolved absolute path. \<open>os.path.realpath\<close> does not raise for a missing
  final component, so the handler above does not run: with \<open>/sandbox/d\<close> a link to
  \<open>/sandbox/real\<close> and no \<open>new.txt\<close> there, the request \<open>/sandbox/d/new.txt\<close> is
  answered with the resolved path \<open>/sandbox/real/new.txt\<close>, not with the absolute path
  \<open>/sandbox/d/new.txt\<close> of the request.
\<close>

theorem validate_path_creation_returns_resolved:
  "normalize_path linked_directory_env ''/sandbox/d/new.txt'' = ''/sandbox/d/new.txt''
   \<and> validate_path linked_directory_env ''/sandbox/d/new.txt'' ''/sandbox''
       = Inr ''/sandbox/real/new.txt''"
  by code_simp

section \<open>The edit engine: theorems\<close>

lemma temp_path_neq: "temp_path_of env p \<noteq> p"
  by (simp add: temp_path_of_def)

lemma unlink_quietly_other: "q \<noteq> p \<Longrightarrow> files (unlink_quietly fs p) q = files fs q"
  by (simp add: unlink_quietly_def unlink_def split: option.splits)

lemma unlink_quietly_gone: "files (unlink_quietly fs p) p = None"
  by (simp add: unlink_quietly_def unlink_def split: option.splits)

lemma write_text_other: "write_text fs p data = Inr fs' \<Longrightarrow> q \<noteq> p \<Longrightarrow> files fs' q = files fs q"
  by (auto simp: write_text_def split: if_splits)

text \<open>A dry run leaves the disk as it is.\<close>

lemma apply_file_edits_dry_run: "snd (apply_file_edits env d fs file_path edits True) = fs"
  by (simp add: apply_file_edits_def Let_def split: sum.splits)

text \<open>Whatever the error and wherever it is raised, the edited file keeps its text.\<close>

lemma apply_file_edits_error_keeps_file:
  assumes "fst (apply_file_edits env d fs file_path edits dry_run) = Inl e"
  shows "files (snd (apply_file_edits env d fs file_path edits dry_run)) file_path = files fs file_path"
proof (cases "read_text fs file_path")
  case (Inl a)
  then show ?thesis by (simp add: apply_file_edits_def)
next
  case rd: (Inr raw)
  show ?thesis
  proof (cases "apply_edits (normalize_line_endings raw) edits")
    case (Inl a)
    with rd show ?thesis by (simp add: apply_file_edits_def)
  next
    case modified: (Inr modified)
    show ?thesis
    proof (cases dry_run)
      case True
      with rd modified show ?thesis by (simp add: apply_file_edits_def Let_def)
    next
      case False
      let ?temp = "temp_path_of env file_path"
      have neq: "file_path \<noteq> ?temp" using temp_path_neq [of env file_path] by simp
      show ?thesis
      proof (cases "write_text fs ?temp modified")
        case (Inl a)
        with rd modified False neq show ?thesis
          by (simp add: apply_file_edits_def Let_def unlink_quietly_other)
      next
        case fs1: (Inr fs1)
        show ?thesis
        proof (cases "rename fs1 ?temp file_path")
          case (Inl a)
          with rd modified False neq fs1 write_text_other [OF fs1 neq] show ?thesis
            by (simp add: apply_file_edits_def Let_def unlink_quietly_other)
        next
          case (Inr fs2)
          with rd modified False fs1 assms show ?thesis
            by (simp add: apply_file_edits_def Let_def)
        qed
      qed
    qed
  qed
qed

text \<open>An error of the edits is the result of the call, and nothing is written.\<close>

lemma apply_file_edits_edit_error:
  assumes "read_text fs file_path = Inr text"
    and "apply_edits (normalize_line_endings text) edits = Inl e"
  shows "apply_file_edits env d fs file_path edits dry_run = (Inl e, fs)"
  using assms by (simp add: apply_file_edits_def)

lemma apply_edit_no_match:
  "matching_window content edit = None \<Longrightarrow>
   apply_edit content edit = Inl (ValueError (''Could not find exact match for edit: '' @ oldText edit))"
  by (simp add: matching_window_def apply_edit_def Let_def)

lemma apply_edits_append:
  "apply_edits content (pre @ post) =
     (case apply_edits content pre of Inl e \<Rightarrow> Inl e | Inr c \<Rightarrow> apply_edits c post)"
  by (induction pre arbitrary: content) (auto split: sum.splits)

lemma apply_edits_no_match:
  assumes "apply_edits content pre = Inr c" and "matching_window c edit = None"
  shows "apply_edits content (pre @ edit # post) =
     Inl (ValueError (''Could not find exact match for edit: '' @ oldText edit))"
  using assms by (simp add: apply_edits_append apply_edit_no_match)

lemma apply_file_edits_changed:
  assumes "files (snd (apply_file_edits env d fs file_path edits dry_run)) file_path \<noteq> files fs file_path"
  shows "\<not> dry_run \<and> (\<exists>text modified. read_text fs file_path = Inr text
           \<and> apply_edits (normalize_line_endings text) edits = Inr modified
           \<and> files (snd (apply_file_edits env d fs file_path edits dry_run)) file_path = Some modified)"
  using assms temp_path_neq [of env file_path]
  by (auto simp: apply_file_edits_def Let_def unlink_quietly_other rename_def write_text_def
      split: sum.splits if_splits option.splits)

text \<open>
  Claim C3: a dry run leaves the disk unchanged; a call that ends in an error leaves the
  text of the file as it was; when the edits before an edit were applied and that edit
  has no matching window, the batch ends with the ValueError "Could not find exact match"
  (the spec's MatchNotFound) and the disk is unchanged; and the text of the file changes
  only when \<open>dry_run\<close> is false and every edit of the list was applied, the file then
  holding the result of all of them.
\<close>

theorem apply_file_edits_all_or_nothing:
  "snd (apply_file_edits env d fs file_path edits True) = fs
   \<and> (\<forall>e. fst (apply_file_edits env d fs file_path edits dry_run) = Inl e \<longrightarrow>
          files (snd (apply_file_edits env d fs file_path edits dry_run)) file_path
            = files fs file_path)
   \<and> (\<forall>raw pre edit post c.
          read_text fs file_path = Inr raw \<and> edits = pre @ edit # post
          \<and> apply_edits (normalize_line_endings raw) pre = Inr c
          \<and> matching_window c edit = None \<longrightarrow>
          apply_file_edits env d fs file_path edits dry_run =
            (Inl (ValueError (''Could not find exact match for edit: '' @ oldText edit)), fs))
   \<and> (files (snd (apply_file_edits env d fs file_path edits dry_run)) file_path
          \<noteq> files fs file_path \<longrightarrow>
        \<not> dry_run \<and> (\<exists>raw modified. read_text fs file_path = Inr raw
           \<and> apply_edits (normalize_line_endings raw) edits = Inr modified
           \<and> files (snd (apply_file_edits env d fs file_path edits dry_run)) file_path
                = Some modified))"
proof (intro conjI allI impI)
  show "snd (apply_file_edits env d fs file_path edits True) = fs"
    by (rule apply_file_edits_dry_run)
next
  fix e
  assume "fst (apply_file_edits env d fs file_path edits dry_run) = Inl e"
  then show "files (snd (apply_file_edits env d fs file_path edits dry_run)) file_path
      = files fs file_path"
    by (rule apply_file_edits_error_keeps_file)
next
  fix raw pre edit post c
  assume h: "read_text fs file_path = Inr raw \<and> edits = pre @ edit # post
          \<and> apply_edits (normalize_line_endings raw) pre = Inr c
          \<and> matching_window c edit = None"
  then have "apply_edits (normalize_line_endings raw) edits =
      Inl (ValueError (''Could not find exact match for edit: '' @ oldText edit))"
    by (simp add: apply_edits_no_match)
  with h show "apply_file_edits env d fs file_path edits dry_run =
            (Inl (ValueError (''Could not find exact match for edit: '' @ oldText edit)), fs)"
    by (simp add: apply_file_edits_edit_error)
next
  assume "files (snd (apply_file_edits env d fs file_path edits dry_run)) file_path
          \<noteq> files fs file_path"
  from apply_file_edits_changed [OF this]
  show "\<not> dry_run" and "\<exists>raw modified. read_text fs file_path = Inr raw
           \<and> apply_edits (normalize_line_endings raw) edits = Inr modified
           \<and> files (snd (apply_file_edits env d fs file_path edits dry_run)) file_path
                = Some modified"
    by blast+
qed

text \<open>The theorem on the disk of the scenario: the first edit applies, the second has no
  match, and nothing is written; a dry run of the first edit alone writes nothing; and
  the first edit alone, not as a dry run, changes the file to the result of the edit.\<close>

theorem apply_file_edits_all_or_nothing_witness:
  "apply_file_edits plain_env headers_only hello_disk ''/sandbox/a.txt''
      [\<lparr>oldText = ''world'', newText = ''there''\<rparr>, \<lparr>oldText = ''nowhere'', newText = ''x''\<rparr>] False
     = (Inl (ValueError ''Could not find exact match for edit: nowhere''), hello_disk)
   \<and> snd (apply_file_edits plain_env headers_only hello_disk ''/sandbox/a.txt''
            [\<lparr>oldText = ''world'', newText = ''there''\<rparr>] True) = hello_disk
   \<and> (\<exists>modified.
         apply_edits (''hello'' @ [CHR 0x0A] @ ''world'' @ [CHR 0x0A])
           [\<lparr>oldText = ''world'', newText = ''there''\<rparr>] = Inr modified
         \<and> files (snd (apply_file_edits plain_env headers_only hello_disk ''/sandbox/a.txt''
                  [\<lparr>oldText = ''world'', newText = ''there''\<rparr>] False)) ''/sandbox/a.txt''
             = Some modified)"
proof -
  let ?e1 = "\<lparr>oldText = ''world'', newText = ''there''\<rparr>"
  let ?e2 = "\<lparr>oldText = ''nowhere'', newText = ''x''\<rparr>"
  let ?raw = "''hello'' @ [CHR 0x0A] @ ''world'' @ [CHR 0x0A]"
  let ?c = "''hello'' @ [CHR 0x0A] @ ''there''"
  have 1: "read_text hello_disk ''/sandbox/a.txt'' = Inr ?raw" by code_simp
  have 2: "apply_edits (normalize_line_endings ?raw) [?e1] = Inr ?c" by code_simp
  have 3: "matching_window ?c ?e2 = None" by code_simp
  have 4: "[?e1, ?e2] = [?e1] @ ?e2 # []" by simp
  from apply_file_edits_all_or_nothing
         [of plain_env headers_only hello_disk "''/sandbox/a.txt''" "[?e1, ?e2]" False]
  have "apply_file_edits plain_env headers_only hello_disk ''/sandbox/a.txt'' [?e1, ?e2] False
     = (Inl (ValueError (''Could not find exact match for edit: '' @ oldText ?e2)), hello_disk)"
    using 1 2 3 4 by blast
  moreover from apply_file_edits_all_or_nothing
         [of plain_env headers_only hello_disk "''/sandbox/a.txt''" "[?e1]"]
  have "snd (apply_file_edits plain_env headers_only hello_disk ''/sandbox/a.txt'' [?e1] True)
      = hello_disk" by blast
  moreover
  have 5: "files (snd (apply_file_edits plain_env headers_only hello_disk ''/sandbox/a.txt''
                  [?e1] False)) ''/sandbox/a.txt'' \<noteq> files hello_disk ''/sandbox/a.txt''"
    by code_simp
  have 6: "normalize_line_endings ?raw = ?raw" by code_simp
  from apply_file_edits_all_or_nothing
         [of plain_env headers_only hello_disk "''/sandbox/a.txt''" "[?e1]" False] 5
  obtain raw modified where "read_text hello_disk ''/sandbox/a.txt'' = Inr raw"
    and "apply_edits (normalize_line_endings raw) [?e1] = Inr modified"
    and "files (snd (apply_file_edits plain_env headers_only hello_disk ''/sandbox/a.txt''
                  [?e1] False)) ''/sandbox/a.txt'' = Some modified"
    by blast
  with 1 6 have "\<exists>modified. apply_edits ?raw [?e1] = Inr modified
         \<and> files (snd (apply_file_edits plain_env headers_only hello_disk ''/sandbox/a.txt''
                  [?e1] False)) ''/sandbox/a.txt'' = Some modified"
    by auto
  ultimately show ?thesis by simp
qed

text \<open>
  Claim C4 says that the scenario's edit leaves the file holding \<open>hello\<close>, \<open>there\<close>
  with a final newline. The edited text is the lines joined by newlines, and \<open>splitlines\<close>
  has dropped the final newline of the original: the file holds \<open>hello\<close>, newline,
  \<open>there\<close> and no final newline, whatever \<open>difflib\<close> yields for the diff.
\<close>

theorem edit_drops_final_newline:
  "files (snd (edit_file plain_env d hello_disk ''/sandbox''
        (Inr \<lparr>edit_path = ''/sandbox/a.txt'',
              edit_edits = [\<lparr>oldText = ''world'', newText = ''there''\<rparr>],
              edit_dryRun = False\<rparr>))) ''/sandbox/a.txt''
     = Some (''hello'' @ [CHR 0x0A] @ ''there'')
   \<and> payload_key (fst (edit_file plain_env d hello_disk ''/sandbox''
        (Inr \<lparr>edit_path = ''/sandbox/a.txt'',
              edit_edits = [\<lparr>oldText = ''world'', newText = ''there''\<rparr>],
              edit_dryRun = False\<rparr>))) = Some ''content''"
proof -
  let ?p = "''/sandbox/a.txt''"
  let ?raw = "''hello'' @ [CHR 0x0A] @ ''world'' @ [CHR 0x0A]"
  let ?edits = "[\<lparr>oldText = ''world'', newText = ''there''\<rparr>]"
  let ?new = "''hello'' @ [CHR 0x0A] @ ''there''"
  let ?temp = "temp_path_of plain_env ?p"
  have v: "validate_path plain_env ?p ''/sandbox'' = Inr ?p" by code_simp
  have r: "read_text hello_disk ?p = Inr ?raw" by code_simp
  have e: "apply_edits (normalize_line_endings ?raw) ?edits = Inr ?new" by code_simp
  have t: "?temp \<noteq> ?p" by (rule temp_path_neq)
  have t1: "?temp \<notin> dirs hello_disk" "dirname ?temp \<in> dirs hello_disk" by code_simp+
  have t2: "?p \<notin> dirs hello_disk" "dirname ?p \<in> dirs hello_disk" by code_simp+
  have w: "write_text hello_disk ?temp ?new
      = Inr (hello_disk\<lparr>files := (files hello_disk)(?temp \<mapsto> ?new)\<rparr>)"
    using t1 by (simp add: write_text_def)
  have rn: "rename (hello_disk\<lparr>files := (files hello_disk)(?temp \<mapsto> ?new)\<rparr>) ?temp ?p
      = Inr (hello_disk\<lparr>files := (files hello_disk)(?temp := None, ?p \<mapsto> ?new)\<rparr>)"
    using t2 by (simp add: rename_def)
  have "apply_file_edits plain_env d hello_disk ?p ?edits False
     = (Inr (format_diff (create_unified_diff d (normalize_line_endings ?raw) ?new ?p)),
        hello_disk\<lparr>files := (files hello_disk)(?temp := None, ?p \<mapsto> ?new)\<rparr>)"
    unfolding apply_file_edits_def Let_def by (simp only: r e w rn sum.case simp_thms if_True if_False)
  then show ?thesis
    by (simp add: edit_file_def v)
qed

text \<open>An index the window search returns is an index of a line of the content, when
  \<open>oldText\<close> has a line.\<close>

lemma window_index_bound:
  assumes "find P (window_indices content_lines old_lines) = Some i" and "old_lines \<noteq> []"
  shows "i < length content_lines"
proof -
  from assms(1) have "i \<in> set (window_indices content_lines old_lines)"
    by (auto simp: find_Some_iff)
  with assms(2) show ?thesis
    by (cases old_lines) (auto simp: window_indices_def split: if_splits)
qed

lemma apply_edit_blank_first_line:
  assumes "splitlines (normalize_line_endings (oldText edit)) = old0 # old_rest"
    and "strip old0 = []" and "matching_window content edit = Some i"
  shows "apply_edit content edit = Inl (ValueError ''empty separator'')"
proof -
  from assms(1,3) have "i < length (splitlines content)"
    using window_index_bound [of _ "splitlines content" "old0 # old_rest" i]
    by (simp add: matching_window_def Let_def)
  with assms show ?thesis
    by (simp add: apply_edit_def matching_window_def Let_def split_first_def)
qed

lemma apply_edit_blank_fails:
  assumes "splitlines (normalize_line_endings (oldText edit)) = old0 # old_rest"
    and "strip old0 = []"
  shows "isl (apply_edit content edit)"
proof (cases "matching_window content edit")
  case None
  then show ?thesis by (simp add: apply_edit_no_match)
next
  case (Some i)
  with assms show ?thesis by (simp add: apply_edit_blank_first_line)
qed

lemma apply_edits_blank_fails:
  assumes "splitlines (normalize_line_endings (oldText edit)) = old0 # old_rest"
    and "strip old0 = []" and "edit \<in> set edits"
  shows "isl (apply_edits content edits)"
  using assms(3)
proof (induction edits arbitrary: content)
  case Nil
  then show ?case by simp
next
  case (Cons a edits)
  show ?case
  proof (cases "apply_edit content a")
    case (Inl e)
    then show ?thesis by simp
  next
    case (Inr c)
    with apply_edit_blank_fails [OF assms(1,2), of content] have "a \<noteq> edit" by auto
    with Cons Inr show ?thesis by simp
  qed
qed

lemma apply_file_edits_fails:
  assumes "isl (apply_edits (normalize_line_endings raw) edits)" and "read_text fs file_path = Inr raw"
  shows "isl (fst (apply_file_edits env d fs file_path edits dry_run))
     \<and> snd (apply_file_edits env d fs file_path edits dry_run) = fs"
  using assms by (auto simp: apply_file_edits_def Let_def split: sum.splits)

text \<open>
  Claim C10: let the first line \<open>old0\<close> of an edit's \<open>oldText\<close> be empty or whitespace
  only. If some window of the content matches, the edit fails with the ValueError
  "empty separator" of \<open>split\<close>; in every case the edit fails; a list of edits that
  contains it fails, applied to any content; and \<open>apply_file_edits\<close> with such a list
  returns an error and leaves the disk unchanged.
\<close>

theorem blank_first_line_edit_never_applied:
  assumes first_line: "splitlines (normalize_line_endings (oldText edit)) = old0 # old_rest"
    and blank: "strip old0 = []"
  shows "(matching_window content edit \<noteq> None \<longrightarrow>
            apply_edit content edit = Inl (ValueError ''empty separator''))
    \<and> isl (apply_edit content edit)
    \<and> (edit \<in> set edits \<longrightarrow> isl (apply_edits content edits))
    \<and> (edit \<in> set edits \<longrightarrow>
          isl (fst (apply_file_edits env d fs file_path edits dry_run))
          \<and> snd (apply_file_edits env d fs file_path edits dry_run) = fs)"
proof (intro conjI impI)
  assume "matching_window content edit \<noteq> None"
  then show "apply_edit content edit = Inl (ValueError ''empty separator'')"
    using apply_edit_blank_first_line [OF first_line blank] by auto
next
  show "isl (apply_edit content edit)" by (rule apply_edit_blank_fails [OF first_line blank])
next
  assume "edit \<in> set edits"
  then show "isl (apply_edits content edits)" by (rule apply_edits_blank_fails [OF first_line blank])
next
  assume mem: "edit \<in> set edits"
  show "isl (fst (apply_file_edits env d fs file_path edits dry_run))"
  proof (cases "read_text fs file_path")
    case (Inl e)
    then show ?thesis by (simp add: apply_file_edits_def)
  next
    case (Inr raw)
    with apply_edits_blank_fails [OF first_line blank mem] show ?thesis
      by (simp add: apply_file_edits_fails)
  qed
next
  assume mem: "edit \<in> set edits"
  show "snd (apply_file_edits env d fs file_path edits dry_run) = fs"
  proof (cases "read_text fs file_path")
    case (Inl e)
    then show ?thesis by (simp add: apply_file_edits_def)
  next
    case (Inr raw)
    with apply_edits_blank_fails [OF first_line blank mem] show ?thesis
      by (simp add: apply_file_edits_fails)
  qed
qed

text \<open>The theorem at an edit whose \<open>oldText\<close> is a line of one space followed by
  \<open>world\<close>, on a content with an empty line before \<open>world\<close>.\<close>

theorem blank_first_line_edit_never_applied_witness:
  "matching_window (''hello'' @ [CHR 0x0A, CHR 0x0A] @ ''world'')
      \<lparr>oldText = '' '' @ [CHR 0x0A] @ ''world'', newText = ''there''\<rparr> = Some 1
   \<and> apply_edit (''hello'' @ [CHR 0x0A, CHR 0x0A] @ ''world'')
      \<lparr>oldText = '' '' @ [CHR 0x0A] @ ''world'', newText = ''there''\<rparr>
        = Inl (ValueError ''empty separator'')
   \<and> isl (apply_edits (''hello'' @ [CHR 0x0A, CHR 0x0A] @ ''world'')
      [\<lparr>oldText = ''hello'', newText = ''bye''\<rparr>,
       \<lparr>oldText = '' '' @ [CHR 0x0A] @ ''world'', newText = ''there''\<rparr>])"
proof -
  let ?content = "''hello'' @ [CHR 0x0A, CHR 0x0A] @ ''world''"
  let ?edit = "\<lparr>oldText = '' '' @ [CHR 0x0A] @ ''world'', newText = ''there''\<rparr>"
  let ?edits = "[\<lparr>oldText = ''hello'', newText = ''bye''\<rparr>, ?edit]"
  have 1: "splitlines (normalize_line_endings (oldText ?edit)) = '' '' # [''world'']"
    by code_simp
  have 2: "strip '' '' = []" by code_simp
  have 3: "matching_window ?content ?edit = Some 1" by code_simp
  have 4: "?edit \<in> set ?edits" by simp
  from blank_first_line_edit_never_applied
         [OF 1 2, of ?content ?edits plain_env headers_only hello_disk "''/sandbox/a.txt''" False] 3 4
  show ?thesis by simp
qed

section \<open>tail\_file: theorems\<close>

text \<open>Text without a carriage return is read and normalized as it is, and text without
  a line boundary is one line.\<close>

lemma replace_absent: "x \<notin> set s \<Longrightarrow> replace (x # r) new s = s"
  by (induction s) auto

lemma universal_newlines_no_CR: "CHR 0x0D \<notin> set s \<Longrightarrow> universal_newlines s = s"
  by (simp add: universal_newlines_def replace_absent)

lemma normalize_line_endings_no_CR: "CHR 0x0D \<notin> set s \<Longrightarrow> normalize_line_endings s = s"
  by (simp add: normalize_line_endings_def replace_absent)

lemma splitlines_acc_plain:
  "set s \<inter> set line_boundaries = {} \<Longrightarrow>
   splitlines_acc cur s = (if cur = [] \<and> s = [] then [] else [rev cur @ s])"
  by (induction s arbitrary: cur) (auto simp: line_boundaries_def)

lemma long_line_facts:
  "length long_line = 1023" "set long_line = {CHR ''b''}" "long_line \<noteq> []"
  by (auto simp: long_line_def)

lemma splitlines_long_line: "splitlines_acc [] long_line = [long_line]"
  using splitlines_acc_plain [of long_line "[]"]
  by (simp add: long_line_facts line_boundaries_def)

lemma tail_chunk_lines_1: "splitlines (CHR 0x0A # long_line) = [[], long_line]"
  by (simp add: splitlines_def line_boundaries_def splitlines_long_line)

lemma tail_chunk_lines_2: "splitlines [CHR ''a'', CHR 0x0A] = [''a'']"
  by code_simp

lemma all_lines: "splitlines (CHR ''a'' # CHR 0x0A # CHR 0x0A # long_line) = [''a'', [], long_line]"
  by (simp add: splitlines_def line_boundaries_def splitlines_long_line)

text \<open>Reading in text mode does not lengthen the text.\<close>

lemma length_replace_le:
  "length new \<le> length old \<Longrightarrow> length (replace old new s) \<le> length s"
proof (induction s rule: length_induct)
  case (1 s)
  show ?case
  proof (cases s)
    case Nil
    then show ?thesis by simp
  next
    case (Cons x xs)
    show ?thesis
    proof (cases "old \<noteq> [] \<and> prefix old (x # xs)")
      case True
      then obtain rest where rest: "x # xs = old @ rest" by (auto simp: prefix_def)
      with True have "length rest < length s" using Cons by (cases old) auto
      with 1 have "length (replace old new rest) \<le> length rest" by simp
      moreover have "drop (length old) (x # xs) = rest" by (simp only: rest) simp
      with True have "replace old new (x # xs) = new @ replace old new rest"
        by simp
      moreover have "length (x # xs) = length old + length rest" by (simp only: rest) simp
      ultimately show ?thesis using Cons 1(2) by simp
    next
      case False
      with 1 Cons show ?thesis by auto
    qed
  qed
qed

lemma length_universal_newlines: "length (universal_newlines s) \<le> length s"
proof -
  have "length (replace [CHR 0x0D, CHR 0x0A] [CHR 0x0A] s) \<le> length s"
    by (rule length_replace_le) simp
  moreover have "length (universal_newlines s) \<le> length (replace [CHR 0x0D, CHR 0x0A] [CHR 0x0A] s)"
    unfolding universal_newlines_def by (rule length_replace_le) simp
  ultimately show ?thesis by simp
qed

text \<open>The inner loop prepends the last lines of the block, as many as are still wanted.\<close>

lemma collect_lines_take:
  "collect_lines n xs (lines, found) =
     (rev (take (nat (n - found)) xs) @ lines, found + int (min (length xs) (nat (n - found))))"
proof (induction xs arbitrary: lines found)
  case Nil
  then show ?case by simp
next
  case (Cons x xs)
  show ?case
  proof (cases "found < n")
    case True
    then have "nat (n - found) = Suc (nat (n - (found + 1)))" by simp
    with True Cons [of "x # lines" "found + 1"] show ?thesis by simp
  next
    case False
    with Cons [of lines found] show ?thesis by simp
  qed
qed

text \<open>
  On an ASCII file of at most one block, \<open>tail_file\<close> does return the last lines of a
  full read: the loop runs once, over the whole text.
\<close>

lemma tail_file_single_chunk:
  assumes "file_path \<notin> dirs fs" and "files fs file_path = Some data"
    and "length data \<le> chunk_size" and "ascii_text data"
  shows "tail_file fs file_path n = Inr (last_lines_of_full_read data (nat n))"
proof (cases "data = [] \<or> n \<le> 0")
  case True
  then show ?thesis
  proof
    assume "data = []"
    with assms show ?thesis
      by (simp add: tail_file_def last_lines_of_full_read_def universal_newlines_def
          normalize_line_endings_def splitlines_def)
  next
    assume "n \<le> 0"
    with assms show ?thesis
      by (simp add: tail_file_def last_lines_of_full_read_def tail_loop.simps [of data n "length data"])
  qed
next
  case False
  let ?ls = "splitlines (normalize_line_endings (universal_newlines data))"
  from False have pos: "0 < length data" "0 < n" by auto
  have chunk: "take m (universal_newlines data) = universal_newlines data"
    if "length data \<le> m" for m
    using length_universal_newlines [of data] that by simp
  have "tail_loop data n (length data) 0 [] [] = Inr (drop (length ?ls - nat n) ?ls)"
    using pos assms(3)
    by (subst tail_loop.simps)
      (simp add: Let_def chunk collect_lines_take tail_loop.simps [of data n 0] take_rev)
  with assms pos show ?thesis
    by (simp add: tail_file_def last_lines_of_full_read_def Let_def)
qed

text \<open>
  Claim C5 says that \<open>tail_file\<close> returns the last \<open>n\<close> lines of a full read. On the
  ASCII file of 1026 characters and \<open>n = 2\<close> it returns the lines \<open>a\<close> and the long line,
  and the last two lines of a full read are the empty line and the long line: the empty
  line that the block boundary cuts is carried as an empty remainder and then lost.
\<close>

theorem tail_file_loses_blank_line:
  "tail_file blank_line_disk ''/sandbox/log.txt'' 2 = Inr (''a'' @ [CHR 0x0A] @ long_line)
   \<and> last_lines_of_full_read (''a'' @ [CHR 0x0A, CHR 0x0A] @ long_line) 2
        = [CHR 0x0A] @ long_line
   \<and> ascii_text (''a'' @ [CHR 0x0A, CHR 0x0A] @ long_line)"
proof -
  let ?data = "CHR ''a'' # CHR 0x0A # CHR 0x0A # long_line"
  have noCR: "CHR 0x0D \<notin> set ?data" "CHR 0x0D \<notin> set (CHR 0x0A # long_line)"
    "CHR 0x0D \<notin> set [CHR ''a'', CHR 0x0A]"
    by (simp_all add: long_line_facts)
  have len: "length ?data = 1026" by (simp add: long_line_facts)
  have step2: "tail_loop ?data 2 2 1 [] [long_line] = Inr [''a'', long_line]"
    apply (subst tail_loop.simps)
    apply (simp add: chunk_size_def Let_def universal_newlines_no_CR [OF noCR(1)])
    apply (simp add: normalize_line_endings_no_CR [OF noCR(3)] tail_chunk_lines_2)
    apply (subst tail_loop.simps)
    apply simp
    done
  have step1: "tail_loop ?data 2 1026 0 [] [] = Inr [''a'', long_line]"
    apply (subst tail_loop.simps)
    apply (simp add: chunk_size_def Let_def universal_newlines_no_CR [OF noCR(2)] long_line_facts)
    apply (simp add: normalize_line_endings_no_CR [OF noCR(2)] tail_chunk_lines_1 step2)
    done
  have "tail_file blank_line_disk ''/sandbox/log.txt'' 2 = Inr (''a'' @ [CHR 0x0A] @ long_line)"
    by (simp add: tail_file_def blank_line_disk_def long_line_facts step1)
  moreover have "last_lines_of_full_read (''a'' @ [CHR 0x0A, CHR 0x0A] @ long_line) 2
        = [CHR 0x0A] @ long_line"
    using noCR(1)
    by (simp add: last_lines_of_full_read_def Let_def universal_newlines_no_CR
        normalize_line_endings_no_CR all_lines)
  moreover have "ascii_text (''a'' @ [CHR 0x0A, CHR 0x0A] @ long_line)"
    by (simp add: ascii_text_def long_line_def list_all_iff)
  ultimately show ?thesis by simp
qed

section \<open>The fence of the diff: theorems\<close>

lemma length_fence: "length (fence n) = 3 * n"
  by (induction n) (simp_all add: fence_def)

lemma fence_add: "fence (m + n) = fence m @ fence n"
  by (simp add: fence_def replicate_add)

lemma fence_mono: "m \<le> n \<Longrightarrow> sublist (fence m) (fence n)"
proof -
  assume "m \<le> n"
  then have "fence n = fence m @ fence (n - m)" using fence_add [of m "n - m"] by simp
  then show ?thesis by (metis sublist_append_rightI)
qed

lemma fence_count_absent: "\<not> str_in (fence (fence_count diff n)) diff"
proof (induction diff n rule: fence_count.induct)
  case (1 diff n)
  show ?case
  proof (cases "str_in (fence n) diff")
    case True
    with 1 show ?thesis by (subst fence_count.simps) simp
  next
    case False
    then show ?thesis by (subst fence_count.simps) simp
  qed
qed

lemma fence_count_ge: "n \<le> fence_count diff n"
proof (induction diff n rule: fence_count.induct)
  case (1 diff n)
  show ?case
  proof (cases "str_in (fence n) diff")
    case True
    with 1 have "n + 1 \<le> fence_count diff (n + 1)" by simp
    with True show ?thesis by (subst fence_count.simps) simp
  next
    case False
    then show ?thesis by (subst fence_count.simps) simp
  qed
qed

text \<open>What \<open>apply_file_edits\<close> returns on success is the fenced diff.\<close>

lemma apply_file_edits_output:
  assumes "apply_file_edits env d fs file_path edits dry_run = (Inr out, fs')"
  shows "\<exists>diff. out = format_diff diff"
  using assms
  by (auto simp: apply_file_edits_def Let_def split: sum.splits if_splits)

text \<open>
  Claim C7: for every diff text, the fence \<open>fence_count diff 3\<close> repetitions wide does not
  occur in the diff; every number of repetitions of the fence unit that does occur in
  the diff is smaller than the chosen one; the chosen number is at least 3; the output
  is the diff between two such fences; and every successful result of
  \<open>apply_file_edits\<close> is such an output.
\<close>

theorem fence_wider_than_any_run:
  "\<not> str_in (fence (fence_count diff 3)) diff
   \<and> (\<forall>j. str_in (fence j) diff \<longrightarrow> j < fence_count diff 3)
   \<and> 3 \<le> fence_count diff 3
   \<and> format_diff diff = fence (fence_count diff 3) @ ''diff'' @ [CHR 0x0A] @ diff @ [CHR 0x0A]
        @ fence (fence_count diff 3) @ [CHR 0x0A]
   \<and> (\<forall>env d fs file_path edits dry_run out fs'.
         apply_file_edits env d fs file_path edits dry_run = (Inr out, fs') \<longrightarrow>
         (\<exists>body. out = format_diff body))"
proof (intro conjI allI impI)
  show "\<not> str_in (fence (fence_count diff 3)) diff" by (rule fence_count_absent)
next
  fix j assume j: "str_in (fence j) diff"
  show "j < fence_count diff 3"
  proof (rule ccontr)
    assume "\<not> j < fence_count diff 3"
    then have "sublist (fence (fence_count diff 3)) (fence j)" by (simp add: fence_mono)
    with j have "str_in (fence (fence_count diff 3)) diff"
      unfolding str_in_def by (metis sublist_order.order_trans)
    with fence_count_absent show False by blast
  qed
next
  show "3 \<le> fence_count diff 3" by (rule fence_count_ge)
next
  show "format_diff diff = fence (fence_count diff 3) @ ''diff'' @ [CHR 0x0A] @ diff @ [CHR 0x0A]
        @ fence (fence_count diff 3) @ [CHR 0x0A]"
    by (simp add: format_diff_def Let_def)
next
  fix env d fs file_path edits dry_run out fs'
  assume "apply_file_edits env d fs file_path edits dry_run = (Inr out, fs')"
  then show "\<exists>body. out = format_diff body" by (rule apply_file_edits_output)
qed

text \<open>The theorem at a diff with an added line that opens a fenced block: three
  repetitions occur in it, and four are chosen.\<close>

theorem fence_wider_than_any_run_witness:
  "str_in (fence 3) (''+ '' @ fence 3 @ ''python'')
   \<and> 3 < fence_count (''+ '' @ fence 3 @ ''python'') 3
   \<and> fence_count (''+ '' @ fence 3 @ ''python'') 3 = 4
   \<and> \<not> str_in (fence 4) (''+ '' @ fence 3 @ ''python'')"
proof -
  let ?diff = "''+ '' @ fence 3 @ ''python''"
  have in3: "str_in (fence 3) ?diff" by code_simp
  have out4: "\<not> str_in (fence 4) ?diff" by code_simp
  from fence_wider_than_any_run [of ?diff] in3 have "3 < fence_count ?diff 3" by blast
  moreover have "fence_count ?diff 3 = 4"
    by code_simp
  ultimately show ?thesis using in3 out4 by simp
qed

section \<open>write\_file and read\_file: theorems\<close>

text \<open>A successful attempt leaves the content under the final name, no temporary file,
  and no directory under the final name.\<close>

lemma write_attempt_success:
  assumes "write_attempt open_and_write fs temp valid c = (Inr u, fs')"
    and "open_and_write = write_exclusive \<or> open_and_write = write_text"
    and "temp \<noteq> valid"
  shows "files fs' valid = Some c \<and> files fs' temp = None \<and> valid \<notin> dirs fs'"
  using assms
  by (auto simp: write_attempt_def write_exclusive_def write_text_def rename_def
      split: sum.splits if_splits option.splits)

lemma write_attempt_exclusive_exists:
  assumes "write_attempt write_exclusive fs temp valid c = (Inl (FileExistsError q), fs1)"
  shows "fs1 = fs"
  using assms
  by (auto simp: write_attempt_def write_exclusive_def rename_def
      split: sum.splits if_splits option.splits)

lemma write_file_success:
  assumes "write_file env fs allowed (Inr \<lparr>write_path = p, write_content = c\<rparr>) = (r, fs')"
    and "payload_key r = Some ''message''"
  shows "\<exists>valid. validate_path env p allowed = Inr valid \<and> files fs' valid = Some c
      \<and> files fs' (temp_path_of env valid) = None \<and> valid \<notin> dirs fs'"
proof (cases "validate_path env p allowed")
  case (Inl e)
  with assms show ?thesis by (auto simp: write_file_def)
next
  case (Inr valid)
  let ?temp = "temp_path_of env valid"
  obtain res1 fs1 where first: "write_attempt write_exclusive fs ?temp valid c = (res1, fs1)"
    by (cases "write_attempt write_exclusive fs ?temp valid c")
  show ?thesis
  proof (cases res1)
    case ok: (Inr u)
    with assms Inr first have "fs' = fs1" by (auto simp: write_file_def Let_def)
    with write_attempt_success [of write_exclusive fs ?temp valid c u fs1] first ok Inr
    show ?thesis using temp_path_neq [of env valid] by simp
  next
    case err: (Inl e)
    show ?thesis
    proof (cases e)
      case (FileExistsError q)
      obtain res2 fs2 where second: "write_attempt write_text fs1 ?temp valid c = (res2, fs2)"
        by (cases "write_attempt write_text fs1 ?temp valid c")
      with assms Inr first err FileExistsError have "fs' = fs2 \<and> (\<exists>u. res2 = Inr u)"
        by (cases res2) (auto simp: write_file_def Let_def)
      then obtain u where "res2 = Inr u" and "fs' = fs2" by blast
      with write_attempt_success [of write_text fs1 ?temp valid c u fs2] second Inr
      show ?thesis using temp_path_neq [of env valid] by simp
    qed (use assms Inr first err in \<open>auto simp: write_file_def Let_def\<close>)
  qed
qed

lemma write_file_cleanup:
  assumes "write_file env fs allowed (Inr \<lparr>write_path = p, write_content = c\<rparr>) = (r, fs')"
    and "validate_path env p allowed = Inr valid"
    and "write_attempt write_exclusive fs (temp_path_of env valid) valid c = (Inl e, fs1)"
    and "\<forall>q. e \<noteq> FileExistsError q"
  shows "files fs' (temp_path_of env valid) = None \<and> payload_key r = Some ''error''"
  using assms by (cases e) (auto simp: write_file_def Let_def unlink_quietly_gone)

text \<open>
  Claim C6, as stated, fails: a write followed by a read does not return exactly the
  written content when the content has a carriage return, because the file is read in
  text mode. Writing \<open>x\<close>, CR, \<open>y\<close> succeeds and the read returns \<open>x\<close>, LF, \<open>y\<close>.
\<close>

theorem write_then_read_changes_carriage_return:
  "fst (write_file plain_env hello_disk ''/sandbox''
          (Inr \<lparr>write_path = ''/sandbox/n.txt'', write_content = ''x'' @ [CHR 0x0D] @ ''y''\<rparr>))
     = [(''message'', ''Successfully wrote to /sandbox/n.txt'')]
   \<and> read_file plain_env
        (snd (write_file plain_env hello_disk ''/sandbox''
          (Inr \<lparr>write_path = ''/sandbox/n.txt'', write_content = ''x'' @ [CHR 0x0D] @ ''y''\<rparr>)))
        ''/sandbox'' (Inr \<lparr>read_path = ''/sandbox/n.txt'', read_tail = None, read_head = None\<rparr>)
     = [(''content'', ''x'' @ [CHR 0x0A] @ ''y'')]"
  by code_simp

text \<open>
  Claim C6, amended: after a successful write, a read of the same path returns the
  written content with CR LF and CR translated to LF, which is the written content
  when it has no carriage return, and the temporary file is gone; and when the
  exclusive attempt fails with an exception other than FileExistsError, no temporary
  file is left either.
\<close>

theorem write_then_read:
  assumes "write_file env fs allowed (Inr \<lparr>write_path = p, write_content = c\<rparr>) = (r, fs')"
  shows "(payload_key r = Some ''message'' \<longrightarrow>
            read_file env fs' allowed (Inr \<lparr>read_path = p, read_tail = None, read_head = None\<rparr>)
              = [(''content'', universal_newlines c)]
            \<and> (CHR 0x0D \<notin> set c \<longrightarrow>
                 read_file env fs' allowed
                   (Inr \<lparr>read_path = p, read_tail = None, read_head = None\<rparr>) = [(''content'', c)])
            \<and> (\<forall>valid. validate_path env p allowed = Inr valid \<longrightarrow>
                 files fs' (temp_path_of env valid) = None))
     \<and> (\<forall>valid e fs1. validate_path env p allowed = Inr valid
            \<and> write_attempt write_exclusive fs (temp_path_of env valid) valid c = (Inl e, fs1)
            \<and> (\<forall>q. e \<noteq> FileExistsError q) \<longrightarrow>
            files fs' (temp_path_of env valid) = None)"
proof (intro conjI impI allI)
  assume ok: "payload_key r = Some ''message''"
  from write_file_success [OF assms ok] obtain valid where
    v: "validate_path env p allowed = Inr valid" and f: "files fs' valid = Some c"
    and d: "valid \<notin> dirs fs'" by blast
  then show rd: "read_file env fs' allowed (Inr \<lparr>read_path = p, read_tail = None, read_head = None\<rparr>)
              = [(''content'', universal_newlines c)]"
    by (simp add: read_file_def read_text_def)
  { assume "CHR 0x0D \<notin> set c"
    with rd show "read_file env fs' allowed
        (Inr \<lparr>read_path = p, read_tail = None, read_head = None\<rparr>) = [(''content'', c)]"
      by (simp add: universal_newlines_no_CR) }
  { fix valid assume "validate_path env p allowed = Inr valid"
    with write_file_success [OF assms ok] show "files fs' (temp_path_of env valid) = None"
      by auto }
next
  fix valid e fs1
  assume "validate_path env p allowed = Inr valid
            \<and> write_attempt write_exclusive fs (temp_path_of env valid) valid c = (Inl e, fs1)
            \<and> (\<forall>q. e \<noteq> FileExistsError q)"
  with write_file_cleanup [OF assms] show "files fs' (temp_path_of env valid) = None"
    by blast
qed

text \<open>The theorem at a write of two lines to a new file, and at a write to the path of
  the root directory, where the rename fails after the temporary file was written.\<close>

theorem write_then_read_witness:
  "read_file plain_env
      (snd (write_file plain_env hello_disk ''/sandbox''
         (Inr \<lparr>write_path = ''/sandbox/n.txt'', write_content = ''x'' @ [CHR 0x0A] @ ''y''\<rparr>)))
      ''/sandbox'' (Inr \<lparr>read_path = ''/sandbox/n.txt'', read_tail = None, read_head = None\<rparr>)
     = [(''content'', ''x'' @ [CHR 0x0A] @ ''y'')]
   \<and> files (snd (write_file plain_env hello_disk ''/sandbox''
         (Inr \<lparr>write_path = ''/sandbox/n.txt'', write_content = ''x'' @ [CHR 0x0A] @ ''y''\<rparr>)))
        (temp_path_of plain_env ''/sandbox/n.txt'') = None
   \<and> fst (write_file plain_env hello_disk ''/sandbox''
         (Inr \<lparr>write_path = ''/sandbox'', write_content = ''x''\<rparr>))
       = [(''error'', ''[Errno 21] Is a directory: '' @ [CHR 0x27]
             @ ''/sandbox.000102030405060708090a0b0c0d0e0f.tmp'' @ [CHR 0x27] @ '' -> '' @ [CHR 0x27]
             @ ''/sandbox'' @ [CHR 0x27])]
   \<and> files (snd (write_file plain_env hello_disk ''/sandbox''
         (Inr \<lparr>write_path = ''/sandbox'', write_content = ''x''\<rparr>)))
        (temp_path_of plain_env ''/sandbox'') = None"
proof -
  let ?c = "''x'' @ [CHR 0x0A] @ ''y''"
  let ?w1 = "write_file plain_env hello_disk ''/sandbox''
         (Inr \<lparr>write_path = ''/sandbox/n.txt'', write_content = ?c\<rparr>)"
  let ?w2 = "write_file plain_env hello_disk ''/sandbox''
         (Inr \<lparr>write_path = ''/sandbox'', write_content = ''x''\<rparr>)"
  let ?t2 = "temp_path_of plain_env ''/sandbox''"
  let ?a2 = "write_attempt write_exclusive hello_disk ?t2 ''/sandbox'' ''x''"
  have ok: "payload_key (fst ?w1) = Some ''message''" by code_simp
  have noCR: "CHR 0x0D \<notin> set ?c" by simp
  have v1: "validate_path plain_env ''/sandbox/n.txt'' ''/sandbox'' = Inr ''/sandbox/n.txt''"
    and v2: "validate_path plain_env ''/sandbox'' ''/sandbox'' = Inr ''/sandbox''" by code_simp+
  have a2: "fst ?a2 = Inl (IsADirectoryError (both_names ?t2 ''/sandbox''))" by code_simp
  then have a2': "?a2 = (Inl (IsADirectoryError (both_names ?t2 ''/sandbox'')), snd ?a2)"
    by (metis prod.collapse)
  have e2: "fst ?w2 = [(''error'', ''[Errno 21] Is a directory: '' @ [CHR 0x27]
             @ ''/sandbox.000102030405060708090a0b0c0d0e0f.tmp'' @ [CHR 0x27] @ '' -> '' @ [CHR 0x27]
             @ ''/sandbox'' @ [CHR 0x27])]" by code_simp
  from write_then_read [of plain_env hello_disk "''/sandbox''" "''/sandbox/n.txt''" ?c "fst ?w1" "snd ?w1"]
    ok noCR v1
  have "read_file plain_env (snd ?w1) ''/sandbox''
          (Inr \<lparr>read_path = ''/sandbox/n.txt'', read_tail = None, read_head = None\<rparr>)
        = [(''content'', ?c)]"
    and "files (snd ?w1) (temp_path_of plain_env ''/sandbox/n.txt'') = None"
    by auto
  moreover
  from write_then_read [of plain_env hello_disk "''/sandbox''" "''/sandbox''" "''x''" "fst ?w2" "snd ?w2"]
    v2 a2'
  have "files (snd ?w2) ?t2 = None"
    by auto
  ultimately show ?thesis using e2 by simp
qed

text \<open>
  The second attempt is outside the clause that removes the temporary file: when the
  temporary name is taken and the rename of the second attempt fails, the temporary
  file stays, with the new content.
\<close>

lemma write_file_retry_leaves_temporary_file:
  "payload_key (fst (write_file plain_env collision_disk ''/sandbox''
      (Inr \<lparr>write_path = ''/sandbox'', write_content = ''new''\<rparr>))) = Some ''error''
   \<and> files (snd (write_file plain_env collision_disk ''/sandbox''
      (Inr \<lparr>write_path = ''/sandbox'', write_content = ''new''\<rparr>)))
        (temp_path_of plain_env ''/sandbox'') = Some ''new''"
  by code_simp

section \<open>The payloads of the tools: theorems\<close>









section \<open>list\_directory\_with\_sizes: theorems\<close>

lemma mset_sort_entries: "mset (sort_entries sort_by entries) = mset entries"
  by (simp add: sort_entries_def)

lemma sort_entries_by_size:
  "sorted_wrt (\<lambda>a b. entry_size b \<le> entry_size a) (sort_entries ''size'' entries)"
proof -
  have "sorted (map entry_size (sort_key entry_size (rev entries)))"
    by (rule sorted_sort_key)
  then have "sorted_wrt (\<lambda>a b. entry_size a \<le> entry_size b) (sort_key entry_size (rev entries))"
    by (simp add: sorted_wrt_map)
  then show ?thesis
    by (simp add: sort_entries_def sorted_wrt_rev)
qed

lemma sort_entries_by_name:
  "sort_by \<noteq> ''size'' \<Longrightarrow> sorted (map entry_name (sort_entries sort_by entries))"
  by (simp add: sort_entries_def)

lemma total_files_mset: "total_files entries = size (filter_mset (\<lambda>e. \<not> isDirectory e) (mset entries))"
  by (simp add: total_files_def flip: mset_filter)

lemma total_dirs_mset: "total_dirs entries = size (filter_mset isDirectory (mset entries))"
  by (simp add: total_dirs_def flip: mset_filter)

lemma total_size_mset:
  "total_size entries = sum_mset (image_mset entry_size (filter_mset (\<lambda>e. \<not> isDirectory e) (mset entries)))"
  by (simp add: total_size_def sum_mset_sum_list flip: mset_filter mset_map)

lemma totals_sort_entries:
  "total_files (sort_entries sort_by entries) = total_files entries"
  "total_dirs (sort_entries sort_by entries) = total_dirs entries"
  "total_size (sort_entries sort_by entries) = total_size entries"
  by (simp_all add: total_files_mset total_dirs_mset total_size_mset mset_sort_entries)

lemma stat_entry_fields:
  "isDirectory (stat_entry rd valid_path n) = isdir rd (path_join valid_path n)"
  "entry_name (stat_entry rd valid_path n) = n"
  "entry_size (stat_entry rd valid_path n) =
     (case stat_size rd (path_join valid_path n) of Some k \<Rightarrow> k | None \<Rightarrow> 0)"
  by (simp_all add: stat_entry_def Let_def split: option.splits)

lemma totals_of_names:
  "total_files (map (stat_entry rd valid_path) names)
     = length (filter (\<lambda>n. \<not> isdir rd (path_join valid_path n)) names)"
  "total_dirs (map (stat_entry rd valid_path) names)
     = length (filter (\<lambda>n. isdir rd (path_join valid_path n)) names)"
  "total_size (map (stat_entry rd valid_path) names)
     = sum_list (map (\<lambda>n. case stat_size rd (path_join valid_path n) of Some k \<Rightarrow> k | None \<Rightarrow> 0)
         (filter (\<lambda>n. \<not> isdir rd (path_join valid_path n)) names))"
  by (simp_all add: total_files_def total_dirs_def total_size_def filter_map comp_def
      stat_entry_fields)

lemma map_raising_length: "map_raising f xs = Inr ys \<Longrightarrow> length ys = length xs"
  by (induction xs arbitrary: ys) (auto split: sum.splits)

text \<open>A comprehension that returns has one result for each element, in order; one that
  raises has an element that raises.\<close>

lemma map_raising_Inr:
  "map_raising f xs = Inr ys \<Longrightarrow>
     length ys = length xs \<and> (\<forall>i < length xs. f (xs ! i) = Inr (ys ! i))"
proof (induction xs arbitrary: ys)
  case Nil
  then show ?case by simp
next
  case (Cons x xs)
  then obtain y ys' where y: "f x = Inr y" and ys': "map_raising f xs = Inr ys'"
    and ys: "ys = y # ys'"
    by (auto split: sum.splits)
  from Cons.IH [OF ys'] y ys show ?case
    by (auto simp: nth_Cons split: nat.splits)
qed

lemma map_raising_Inl:
  "map_raising f xs = Inl e \<Longrightarrow> \<exists>x \<in> set xs. f x = Inl e"
  by (induction xs) (auto split: sum.splits)

lemma map_raising_total:
  "(\<And>x. x \<in> set xs \<Longrightarrow> \<exists>y. f x = Inr y) \<Longrightarrow> \<exists>ys. map_raising f xs = Inr ys"
proof (cases "map_raising f xs")
  case (Inl e)
  assume "\<And>x. x \<in> set xs \<Longrightarrow> \<exists>y. f x = Inr y"
  with map_raising_Inl [OF Inl] show ?thesis by fastforce
next
  case (Inr ys)
  then show ?thesis by blast
qed

text \<open>\<open>format_size\<close> returns for sizes below \<open>2 ** 49\<close> and raises IndexError from there
  on, where \<open>units[i]\<close> is out of range; it raises nothing else.\<close>

lemma bit_length_le: "bit_length n \<le> k \<longleftrightarrow> n < 2 ^ k"
proof (induction n arbitrary: k rule: bit_length.induct)
  case (1 n)
  show ?case
  proof (cases "n = 0")
    case True
    then show ?thesis by (simp add: bit_length.simps)
  next
    case False
    show ?thesis
    proof (cases k)
      case 0
      with False show ?thesis by (simp add: bit_length.simps [of n])
    next
      case (Suc k')
      from False have "bit_length n = Suc (bit_length (n div 2))"
        by (simp add: bit_length.simps [of n])
      moreover from 1 [OF False, of k'] have "bit_length (n div 2) \<le> k' \<longleftrightarrow> n div 2 < 2 ^ k'" .
      moreover have "n div 2 < 2 ^ k' \<longleftrightarrow> n < 2 ^ Suc k'" by auto
      ultimately show ?thesis using Suc by simp
    qed
  qed
qed

lemma format_size_small:
  "bytes < 2 ^ 49 \<Longrightarrow> \<exists>size_text. format_size two_decimals bytes = Inr size_text"
  using bit_length_le [of bytes 49]
  by (auto simp: format_size_def Let_def units_def)

lemma format_size_large:
  "2 ^ 49 \<le> bytes \<Longrightarrow>
     format_size two_decimals bytes = Inl (IndexError ''list index out of range'')"
  using bit_length_le [of bytes 49]
  by (auto simp: format_size_def Let_def units_def)

lemma format_size_error:
  "format_size two_decimals bytes = Inl e \<Longrightarrow> e = IndexError ''list index out of range''"
  by (auto simp: format_size_def Let_def split: if_splits)

lemma format_entry_error:
  "format_entry two_decimals entry = Inl e \<Longrightarrow> e = IndexError ''list index out of range''"
  by (auto simp: format_entry_def split: if_splits sum.splits dest: format_size_error)

lemma file_size_le_total:
  "entry \<in> set entries \<Longrightarrow> \<not> isDirectory entry \<Longrightarrow> entry_size entry \<le> total_size entries"
  by (simp add: total_size_def member_le_sum_list)

lemma format_entry_small:
  assumes "total_size entries < 2 ^ 49" and "entry \<in> set entries"
  shows "\<exists>line. format_entry two_decimals entry = Inr line"
proof (cases "isDirectory entry")
  case True
  then show ?thesis by (simp add: format_entry_def)
next
  case False
  with assms file_size_le_total [of entry entries] have "entry_size entry < 2 ^ 49" by simp
  from format_size_small [OF this, of two_decimals] False show ?thesis
    by (auto simp: format_entry_def)
qed

text \<open>The tool on a directory it can list: the text when the combined size is below
  \<open>2 ** 49\<close>, the error from there on.\<close>

lemma list_directory_with_sizes_small:
  assumes "validate_path env p allowed = Inr valid_path" and "listdir rd valid_path = Inr names"
    and "total_size (listed_entries rd valid_path sort_by names) < 2 ^ 49"
  shows "\<exists>formatted size_text.
           list_directory_with_sizes env rd two_decimals allowed
             (Inr \<lparr>list_path = p, sortBy = sort_by\<rparr>)
            = [(''content'', join [CHR 0x0A]
                 (formatted @ summary_lines (listed_entries rd valid_path sort_by names) size_text))]
           \<and> map_raising (format_entry two_decimals) (listed_entries rd valid_path sort_by names)
                = Inr formatted
           \<and> format_size two_decimals (total_size (listed_entries rd valid_path sort_by names))
                = Inr size_text"
proof -
  let ?L = "listed_entries rd valid_path sort_by names"
  from map_raising_total [of ?L "format_entry two_decimals"] format_entry_small [OF assms(3)]
  obtain formatted where f: "map_raising (format_entry two_decimals) ?L = Inr formatted"
    by blast
  from format_size_small [OF assms(3)] obtain size_text where
    t: "format_size two_decimals (total_size ?L) = Inr size_text" by blast
  from assms(1,2) f t show ?thesis
    by (simp add: list_directory_with_sizes_def Let_def)
qed

lemma list_directory_with_sizes_large:
  assumes "validate_path env p allowed = Inr valid_path" and "listdir rd valid_path = Inr names"
    and "2 ^ 49 \<le> total_size (listed_entries rd valid_path sort_by names)"
  shows "list_directory_with_sizes env rd two_decimals allowed
             (Inr \<lparr>list_path = p, sortBy = sort_by\<rparr>)
            = [(''error'', ''list index out of range'')]"
proof (cases "map_raising (format_entry two_decimals) (listed_entries rd valid_path sort_by names)")
  case (Inl e)
  from map_raising_Inl [OF this] format_entry_error have "e = IndexError ''list index out of range''"
    by blast
  with assms(1,2) Inl show ?thesis
    by (simp add: list_directory_with_sizes_def Let_def)
next
  case (Inr formatted)
  with assms(1,2) format_size_large [OF assms(3), of two_decimals] show ?thesis
    by (simp add: list_directory_with_sizes_def Let_def)
qed

lemma list_directory_with_sizes_content:
  assumes "list_directory_with_sizes env rd two_decimals allowed
             (Inr \<lparr>list_path = p, sortBy = sort_by\<rparr>) = [(''content'', listing)]"
  shows "\<exists>valid_path names formatted size_text.
           validate_path env p allowed = Inr valid_path \<and> listdir rd valid_path = Inr names
           \<and> map_raising (format_entry two_decimals) (listed_entries rd valid_path sort_by names)
                = Inr formatted
           \<and> format_size two_decimals (total_size (listed_entries rd valid_path sort_by names))
                = Inr size_text
           \<and> listing = join [CHR 0x0A]
                (formatted @ summary_lines (listed_entries rd valid_path sort_by names) size_text)"
  using assms
  by (auto simp: list_directory_with_sizes_def Let_def split: sum.splits)

text \<open>
  Claim C9: sorted by size, the sizes of the listed entries do not increase along the
  listing, and neither do the sizes of the listed files alone (the key of the sort is
  the \<open>st_size\<close> of an entry and does not look at its type); sorted by name, the names
  ascend; the listed names are the names of the directory; the totals of the summary
  are the number of listed files, the number of listed directories and the sum of the
  sizes of the listed files, which are those of the directory's entries. The tool
  prints this order: on a directory it can list, with a combined size below
  \<open>2 ** 49\<close>, its text is, line by line, the formatted entries in the sorted order,
  followed by the summary with these totals, and from \<open>2 ** 49\<close> on it returns the
  error of \<open>format_size\<close>; and every text the tool returns is of that form.
\<close>

theorem listing_sorted_with_totals:
  "(sort_by = ''size'' \<longrightarrow>
      sorted_wrt (\<lambda>a b. entry_size b \<le> entry_size a) (listed_entries rd valid_path sort_by names)
      \<and> sorted_wrt (\<lambda>a b. entry_size b \<le> entry_size a)
           (filter (\<lambda>e. \<not> isDirectory e) (listed_entries rd valid_path sort_by names)))
   \<and> (sort_by \<noteq> ''size'' \<longrightarrow>
        sorted (map entry_name (listed_entries rd valid_path sort_by names)))
   \<and> mset (map entry_name (listed_entries rd valid_path sort_by names)) = mset names
   \<and> total_files (listed_entries rd valid_path sort_by names)
        = length (filter (\<lambda>e. \<not> isDirectory e) (listed_entries rd valid_path sort_by names))
   \<and> total_dirs (listed_entries rd valid_path sort_by names)
        = length (filter isDirectory (listed_entries rd valid_path sort_by names))
   \<and> total_size (listed_entries rd valid_path sort_by names)
        = sum_list (map entry_size
            (filter (\<lambda>e. \<not> isDirectory e) (listed_entries rd valid_path sort_by names)))
   \<and> total_files (listed_entries rd valid_path sort_by names)
        = length (filter (\<lambda>n. \<not> isdir rd (path_join valid_path n)) names)
   \<and> total_dirs (listed_entries rd valid_path sort_by names)
        = length (filter (\<lambda>n. isdir rd (path_join valid_path n)) names)
   \<and> total_size (listed_entries rd valid_path sort_by names)
        = sum_list (map (\<lambda>n. case stat_size rd (path_join valid_path n) of
                                 Some k \<Rightarrow> k | None \<Rightarrow> 0)
            (filter (\<lambda>n. \<not> isdir rd (path_join valid_path n)) names))
   \<and> (\<forall>env two_decimals allowed p.
         validate_path env p allowed = Inr valid_path \<and> listdir rd valid_path = Inr names \<longrightarrow>
         (total_size (listed_entries rd valid_path sort_by names) < 2 ^ 49 \<longrightarrow>
            (\<exists>formatted size_text.
               list_directory_with_sizes env rd two_decimals allowed
                   (Inr \<lparr>list_path = p, sortBy = sort_by\<rparr>)
                 = [(''content'',
                     join [CHR 0x0A]
                       (formatted @
                        [[],
                         ''Total: ''
                           @ str_nat (total_files (listed_entries rd valid_path sort_by names))
                           @ '' files, ''
                           @ str_nat (total_dirs (listed_entries rd valid_path sort_by names))
                           @ '' directories'',
                         ''Combined size: '' @ size_text]))]
               \<and> length formatted = length (listed_entries rd valid_path sort_by names)
               \<and> (\<forall>i < length (listed_entries rd valid_path sort_by names).
                     format_entry two_decimals (listed_entries rd valid_path sort_by names ! i)
                       = Inr (formatted ! i))
               \<and> format_size two_decimals
                     (total_size (listed_entries rd valid_path sort_by names)) = Inr size_text))
         \<and> (2 ^ 49 \<le> total_size (listed_entries rd valid_path sort_by names) \<longrightarrow>
              list_directory_with_sizes env rd two_decimals allowed
                  (Inr \<lparr>list_path = p, sortBy = sort_by\<rparr>)
                = [(''error'', ''list index out of range'')]))
   \<and> (\<forall>env two_decimals allowed p listing.
         list_directory_with_sizes env rd two_decimals allowed
             (Inr \<lparr>list_path = p, sortBy = sort_by\<rparr>) = [(''content'', listing)] \<longrightarrow>
         (\<exists>valid listed formatted size_text.
            validate_path env p allowed = Inr valid \<and> listdir rd valid = Inr listed
            \<and> length formatted = length (listed_entries rd valid sort_by listed)
            \<and> (\<forall>i < length (listed_entries rd valid sort_by listed).
                  format_entry two_decimals (listed_entries rd valid sort_by listed ! i)
                    = Inr (formatted ! i))
            \<and> listing = join [CHR 0x0A]
                 (formatted @
                  [[],
                   ''Total: '' @ str_nat (total_files (listed_entries rd valid sort_by listed))
                     @ '' files, '' @ str_nat (total_dirs (listed_entries rd valid sort_by listed))
                     @ '' directories'',
                   ''Combined size: '' @ size_text])
            \<and> format_size two_decimals (total_size (listed_entries rd valid sort_by listed))
                 = Inr size_text))"
proof (intro conjI impI allI)
  assume "sort_by = ''size''"
  then show s: "sorted_wrt (\<lambda>a b. entry_size b \<le> entry_size a) (listed_entries rd valid_path sort_by names)"
    by (simp add: listed_entries_def sort_entries_by_size)
  then show "sorted_wrt (\<lambda>a b. entry_size b \<le> entry_size a)
           (filter (\<lambda>e. \<not> isDirectory e) (listed_entries rd valid_path sort_by names))"
    by (rule sorted_wrt_filter)
next
  assume "sort_by \<noteq> ''size''"
  then show "sorted (map entry_name (listed_entries rd valid_path sort_by names))"
    by (simp add: listed_entries_def sort_entries_by_name)
next
  have "mset (listed_entries rd valid_path sort_by names) = mset (map (stat_entry rd valid_path) names)"
    by (simp add: listed_entries_def mset_sort_entries)
  then have "image_mset entry_name (mset (listed_entries rd valid_path sort_by names))
      = image_mset entry_name (mset (map (stat_entry rd valid_path) names))"
    by simp
  also have "\<dots> = mset names"
    by (simp add: multiset.map_comp comp_def stat_entry_fields)
  finally show "mset (map entry_name (listed_entries rd valid_path sort_by names)) = mset names"
    by simp
next
  show "total_files (listed_entries rd valid_path sort_by names)
        = length (filter (\<lambda>e. \<not> isDirectory e) (listed_entries rd valid_path sort_by names))"
    by (simp add: total_files_def)
  show "total_dirs (listed_entries rd valid_path sort_by names)
        = length (filter isDirectory (listed_entries rd valid_path sort_by names))"
    by (simp add: total_dirs_def)
  show "total_size (listed_entries rd valid_path sort_by names)
        = sum_list (map entry_size
            (filter (\<lambda>e. \<not> isDirectory e) (listed_entries rd valid_path sort_by names)))"
    by (simp add: total_size_def)
  show "total_files (listed_entries rd valid_path sort_by names)
        = length (filter (\<lambda>n. \<not> isdir rd (path_join valid_path n)) names)"
    by (simp add: listed_entries_def totals_sort_entries totals_of_names)
  show "total_dirs (listed_entries rd valid_path sort_by names)
        = length (filter (\<lambda>n. isdir rd (path_join valid_path n)) names)"
    by (simp add: listed_entries_def totals_sort_entries totals_of_names)
  show "total_size (listed_entries rd valid_path sort_by names)
        = sum_list (map (\<lambda>n. case stat_size rd (path_join valid_path n) of
                                 Some k \<Rightarrow> k | None \<Rightarrow> 0)
            (filter (\<lambda>n. \<not> isdir rd (path_join valid_path n)) names))"
    by (simp add: listed_entries_def totals_sort_entries totals_of_names)
next
  fix env two_decimals allowed p
  assume ok: "validate_path env p allowed = Inr valid_path \<and> listdir rd valid_path = Inr names"
    and small: "total_size (listed_entries rd valid_path sort_by names) < 2 ^ 49"
  from ok list_directory_with_sizes_small [OF _ _ small, of env p allowed two_decimals]
  obtain formatted size_text where
    h: "list_directory_with_sizes env rd two_decimals allowed
             (Inr \<lparr>list_path = p, sortBy = sort_by\<rparr>)
            = [(''content'', join [CHR 0x0A]
                 (formatted @ summary_lines (listed_entries rd valid_path sort_by names) size_text))]"
      "map_raising (format_entry two_decimals) (listed_entries rd valid_path sort_by names)
                = Inr formatted"
      "format_size two_decimals (total_size (listed_entries rd valid_path sort_by names))
                = Inr size_text"
    by blast
  from map_raising_Inr [OF h(2)] h(1,3)
  show "\<exists>formatted size_text.
               list_directory_with_sizes env rd two_decimals allowed
                   (Inr \<lparr>list_path = p, sortBy = sort_by\<rparr>)
                 = [(''content'',
                     join [CHR 0x0A]
                       (formatted @
                        [[],
                         ''Total: ''
                           @ str_nat (total_files (listed_entries rd valid_path sort_by names))
                           @ '' files, ''
                           @ str_nat (total_dirs (listed_entries rd valid_path sort_by names))
                           @ '' directories'',
                         ''Combined size: '' @ size_text]))]
               \<and> length formatted = length (listed_entries rd valid_path sort_by names)
               \<and> (\<forall>i < length (listed_entries rd valid_path sort_by names).
                     format_entry two_decimals (listed_entries rd valid_path sort_by names ! i)
                       = Inr (formatted ! i))
               \<and> format_size two_decimals
                     (total_size (listed_entries rd valid_path sort_by names)) = Inr size_text"
    by (intro exI [of _ formatted] exI [of _ size_text]) (simp add: summary_lines_def)
next
  fix env two_decimals allowed p
  assume ok: "validate_path env p allowed = Inr valid_path \<and> listdir rd valid_path = Inr names"
    and large: "2 ^ 49 \<le> total_size (listed_entries rd valid_path sort_by names)"
  from ok list_directory_with_sizes_large [OF _ _ large, of env p allowed two_decimals]
  show "list_directory_with_sizes env rd two_decimals allowed
                  (Inr \<lparr>list_path = p, sortBy = sort_by\<rparr>)
                = [(''error'', ''list index out of range'')]"
    by blast
next
  fix env two_decimals allowed p listing
  assume "list_directory_with_sizes env rd two_decimals allowed
             (Inr \<lparr>list_path = p, sortBy = sort_by\<rparr>) = [(''content'', listing)]"
  from list_directory_with_sizes_content [OF this]
  obtain valid listed formatted size_text where
    h: "validate_path env p allowed = Inr valid" "listdir rd valid = Inr listed"
      "map_raising (format_entry two_decimals) (listed_entries rd valid sort_by listed) = Inr formatted"
      "format_size two_decimals (total_size (listed_entries rd valid sort_by listed)) = Inr size_text"
      "listing = join [CHR 0x0A]
                (formatted @ summary_lines (listed_entries rd valid sort_by listed) size_text)"
    by blast
  from map_raising_Inr [OF h(3)] h(1,2,4,5)
  show "\<exists>valid listed formatted size_text.
            validate_path env p allowed = Inr valid \<and> listdir rd valid = Inr listed
            \<and> length formatted = length (listed_entries rd valid sort_by listed)
            \<and> (\<forall>i < length (listed_entries rd valid sort_by listed).
                  format_entry two_decimals (listed_entries rd valid sort_by listed ! i)
                    = Inr (formatted ! i))
            \<and> listing = join [CHR 0x0A]
                 (formatted @
                  [[],
                   ''Total: '' @ str_nat (total_files (listed_entries rd valid sort_by listed))
                     @ '' files, '' @ str_nat (total_dirs (listed_entries rd valid sort_by listed))
                     @ '' directories'',
                   ''Combined size: '' @ size_text])
            \<and> format_size two_decimals (total_size (listed_entries rd valid sort_by listed))
                 = Inr size_text"
    by (intro exI [of _ valid] exI [of _ listed] exI [of _ formatted] exI [of _ size_text])
      (simp add: summary_lines_def)
qed

lemma replicate_numeral: "replicate (numeral k) x = x # replicate (pred_numeral k) x"
  by (simp add: numeral_eq_Suc)

lemma four_lines:
  assumes "length xs = 4" and "xs ! 0 = a" and "xs ! 1 = b" and "xs ! 2 = c" and "xs ! 3 = d"
  shows "xs = [a, b, c, d]"
proof -
  from assms(1) obtain w x y z where "xs = [w, x, y, z]"
    by (auto simp: length_Suc_conv eval_nat_numeral)
  with assms(2-5) show ?thesis by simp
qed

text \<open>The theorem at the directory \<open>/sandbox\<close> of four entries, which \<open>os.listdir\<close>
  reports in an order that is sorted neither by size nor by name.\<close>

theorem listing_sorted_with_totals_witness:
  "listdir sandbox_reader ''/sandbox'' = Inr [''a'', ''d'', ''c'', ''b'']
   \<and> map entry_size (listed_entries sandbox_reader ''/sandbox'' ''size'' [''a'', ''d'', ''c'', ''b''])
     = [4096, 2048, 1024, 0]
   \<and> sorted_wrt (\<lambda>a b. entry_size b \<le> entry_size a)
        (listed_entries sandbox_reader ''/sandbox'' ''size'' [''a'', ''d'', ''c'', ''b''])
   \<and> map entry_name (listed_entries sandbox_reader ''/sandbox'' ''name'' [''a'', ''d'', ''c'', ''b''])
     = [''a'', ''b'', ''c'', ''d'']
   \<and> sorted (map entry_name
        (listed_entries sandbox_reader ''/sandbox'' ''name'' [''a'', ''d'', ''c'', ''b'']))
   \<and> total_files (listed_entries sandbox_reader ''/sandbox'' ''size'' [''a'', ''d'', ''c'', ''b'']) = 3
   \<and> total_dirs (listed_entries sandbox_reader ''/sandbox'' ''size'' [''a'', ''d'', ''c'', ''b'']) = 1
   \<and> list_directory_with_sizes plain_env sandbox_reader whole_units ''/sandbox''
        (Inr \<lparr>list_path = ''/sandbox'', sortBy = ''size''\<rparr>)
     = [(''content'',
         ''[FILE] b                                 4.00 KB'' @ [CHR 0x0A] @
         ''[DIR] d                              '' @ [CHR 0x0A] @
         ''[FILE] a                                 1.00 KB'' @ [CHR 0x0A] @
         ''[FILE] c                                     0 B'' @ [CHR 0x0A] @ [CHR 0x0A] @
         ''Total: 3 files, 1 directories'' @ [CHR 0x0A] @
         ''Combined size: 5.00 KB'')]"
proof -
  let ?names = "[''a'', ''d'', ''c'', ''b'']"
  let ?L = "listed_entries sandbox_reader ''/sandbox'' ''size'' ?names"
  note inst = listing_sorted_with_totals [of _ sandbox_reader "''/sandbox''" ?names]
  have v: "validate_path plain_env ''/sandbox'' ''/sandbox'' = Inr ''/sandbox''" by code_simp
  have ld: "listdir sandbox_reader ''/sandbox'' = Inr ?names" by (simp add: sandbox_reader_def)
  have L: "?L =
      [\<lparr>entry_name = ''b'', isDirectory = False, entry_size = 4096\<rparr>,
       \<lparr>entry_name = ''d'', isDirectory = True, entry_size = 2048\<rparr>,
       \<lparr>entry_name = ''a'', isDirectory = False, entry_size = 1024\<rparr>,
       \<lparr>entry_name = ''c'', isDirectory = False, entry_size = 0\<rparr>]" by code_simp
  have names: "map entry_name (listed_entries sandbox_reader ''/sandbox'' ''name'' ?names)
     = [''a'', ''b'', ''c'', ''d'']" by code_simp
  have neq: "''name'' \<noteq> ''size''" by simp
  have dirs: "filter (\<lambda>n. isdir sandbox_reader (path_join ''/sandbox'' n)) ?names = [''d'']"
    and fls: "filter (\<lambda>n. \<not> isdir sandbox_reader (path_join ''/sandbox'' n)) ?names
        = [''a'', ''c'', ''b'']"
    by code_simp+
  have total: "total_size ?L = 5120" by (simp add: L total_size_def)
  have fs: "format_size whole_units 4096 = Inr ''4.00 KB''"
    "format_size whole_units 1024 = Inr ''1.00 KB''"
    "format_size whole_units 0 = Inr ''0 B''"
    "format_size whole_units 5120 = Inr ''5.00 KB''"
    by (simp_all add: format_size_def bit_length.simps whole_units_def str_nat.simps units_def)
  have sorted_size: "sorted_wrt (\<lambda>a b. entry_size b \<le> entry_size a) ?L"
    using inst [of "''size''"] by blast
  have "total_files ?L
      = length (filter (\<lambda>n. \<not> isdir sandbox_reader (path_join ''/sandbox'' n)) ?names)"
    using inst [of "''size''"] by blast
  then have files3: "total_files ?L = 3" by (simp only: fls) simp
  have "total_dirs ?L
      = length (filter (\<lambda>n. isdir sandbox_reader (path_join ''/sandbox'' n)) ?names)"
    using inst [of "''size''"] by blast
  then have dirs1: "total_dirs ?L = 1" by (simp only: dirs) simp
  have sorted_name:
    "sorted (map entry_name (listed_entries sandbox_reader ''/sandbox'' ''name'' ?names))"
    using inst [of "''name''"] neq by blast
  have small: "total_size ?L < 2 ^ 49" by (simp add: total)
  from inst [of "''size''", THEN conjunct2, THEN conjunct2, THEN conjunct2, THEN conjunct2,
      THEN conjunct2, THEN conjunct2, THEN conjunct2, THEN conjunct2, THEN conjunct2,
      THEN conjunct1, rule_format, of plain_env "''/sandbox''" "''/sandbox''" whole_units,
      THEN conjunct1, rule_format] v ld small
  obtain formatted size_text where
    out: "list_directory_with_sizes plain_env sandbox_reader whole_units ''/sandbox''
            (Inr \<lparr>list_path = ''/sandbox'', sortBy = ''size''\<rparr>)
          = [(''content'',
              join [CHR 0x0A]
                (formatted @
                 [[],
                  ''Total: '' @ str_nat (total_files ?L) @ '' files, ''
                    @ str_nat (total_dirs ?L) @ '' directories'',
                  ''Combined size: '' @ size_text]))]"
    and len: "length formatted = length ?L"
    and lines: "\<forall>i < length ?L. format_entry whole_units (?L ! i) = Inr (formatted ! i)"
    and size_text: "format_size whole_units (total_size ?L) = Inr size_text"
    by blast
  from size_text have st: "size_text = ''5.00 KB''" by (simp add: total fs)
  from len have len4: "length formatted = 4" by (simp add: L)
  have "formatted ! 0 = ''[FILE] b                                 4.00 KB''"
    using lines [rule_format, of 0]
    by (simp add: L format_entry_def fs ljust_def rjust_def replicate_numeral)
  moreover have "formatted ! 1 = ''[DIR] d                              ''"
    using lines [rule_format, of 1]
    by (simp add: L format_entry_def fs ljust_def rjust_def replicate_numeral)
  moreover have "formatted ! 2 = ''[FILE] a                                 1.00 KB''"
    using lines [rule_format, of 2]
    by (simp add: L format_entry_def fs ljust_def rjust_def replicate_numeral)
  moreover have "formatted ! 3 = ''[FILE] c                                     0 B''"
    using lines [rule_format, of 3]
    by (simp add: L format_entry_def fs ljust_def rjust_def replicate_numeral)
  ultimately have formatted: "formatted =
     [''[FILE] b                                 4.00 KB'',
      ''[DIR] d                              '',
      ''[FILE] a                                 1.00 KB'',
      ''[FILE] c                                     0 B'']"
    using len4 by (intro four_lines)
  have tool: "list_directory_with_sizes plain_env sandbox_reader whole_units ''/sandbox''
        (Inr \<lparr>list_path = ''/sandbox'', sortBy = ''size''\<rparr>)
     = [(''content'',
         ''[FILE] b                                 4.00 KB'' @ [CHR 0x0A] @
         ''[DIR] d                              '' @ [CHR 0x0A] @
         ''[FILE] a                                 1.00 KB'' @ [CHR 0x0A] @
         ''[FILE] c                                     0 B'' @ [CHR 0x0A] @ [CHR 0x0A] @
         ''Total: 3 files, 1 directories'' @ [CHR 0x0A] @
         ''Combined size: 5.00 KB'')]"
    by (simp add: out formatted st files3 dirs1 str_nat.simps)
  have sizes: "map entry_size ?L = [4096, 2048, 1024, 0]" by (simp add: L)
  from ld sizes sorted_size names sorted_name files3 dirs1 tool show ?thesis by simp
qed

end
